theory Spec2Isabelle
  imports Complex_Main "HOL-Library.Word"
begin

unbundle bit_operations_syntax

section \<open>cairo_xpm: writing a Cairo image surface as XPM3 source text\<close>

text \<open>
  The development follows \<^verbatim>\<open>cairo_xpm.c\<close>.  A pixel is the C \<^verbatim>\<open>int\<close> read from the
  surface, a 32-bit word.  Counters that stay far below \<open>2 ^ 31\<close> (the number of
  colours, the characters per pixel, loop indices) are natural numbers; the one place
  where the C arithmetic can leave the range of \<^verbatim>\<open>int\<close>, the size estimate, is
  computed on 32-bit words so that the wrap-around is part of the model.
\<close>

subsection \<open>Constants and the pixel source\<close>

definition MAX_COL :: nat where
  "MAX_COL = 0x1000000"

definition TRANS_THRESH :: "32 word" where
  "TRANS_THRESH = 0x80"

text \<open>
  An image surface as the encoder sees it: \<^verbatim>\<open>cairo_image_surface_get_width\<close>,
  \<^verbatim>\<open>cairo_image_surface_get_height\<close> and the pixel read of
  \<^verbatim>\<open>cairo_image_surface_get_argb24_pixel (sfc, x, y)\<close>.  The pointer arithmetic over
  data and stride inside the accessor is not modelled; the accessor is a function of
  the coordinates.
\<close>

record image =
  get_width :: nat
  get_height :: nat
  get_argb24_pixel :: "nat \<Rightarrow> nat \<Rightarrow> 32 word"

subsection \<open>The colour of a pixel\<close>

text \<open>
  Lines 174--177 (counting pass) and 226--229 (pixel table).  \<^verbatim>\<open>col\<close> is a signed
  \<^verbatim>\<open>int\<close>, so \<^verbatim>\<open>col >> 24\<close> is the arithmetic shift; the result is the index into the
  table \<^verbatim>\<open>colors\<close>, a number between 0 and \<open>MAX_COL\<close>.
\<close>

definition count_color :: "32 word \<Rightarrow> nat" where
  "count_color col =
     (if (signed_drop_bit 24 col AND 0xff) < TRANS_THRESH then MAX_COL
      else unat (col AND 0x00ffffff))"

definition row_color :: "32 word \<Rightarrow> nat" where
  "row_color col =
     (if (signed_drop_bit 24 col AND 0xff) < TRANS_THRESH then MAX_COL
      else unat (col AND 0xffffff))"

subsection \<open>Counting the colours\<close>

text \<open>
  The table \<^verbatim>\<open>colors\<close> has \<open>MAX_COL + 1\<close> zeroed entries (\<^verbatim>\<open>calloc\<close>); entry \<open>col\<close>
  holds the 1-based number given to that colour, 0 while the colour has not been seen.
\<close>

type_synonym palette = "(nat \<Rightarrow> nat) \<times> nat"

definition count_pixel :: "palette \<Rightarrow> 32 word \<Rightarrow> palette" where
  "count_pixel st pixel =
     (case st of (colors, ncols) \<Rightarrow>
        let col = count_color pixel in
        if colors col = 0 then (colors(col := ncols + 1), ncols + 1)
        else (colors, ncols))"

definition count_colors :: "image \<Rightarrow> palette" where
  "count_colors sfc =
     foldl (\<lambda>st y. foldl (\<lambda>st x. count_pixel st (get_argb24_pixel sfc x y)) st
                      [0..<get_width sfc])
           (\<lambda>_. 0, 0) [0..<get_height sfc]"

subsection \<open>Characters per pixel\<close>

text \<open>
  \<^verbatim>\<open>for (bpc = 0, n = ncols; n; n >>= 1, bpc++);\<close>  The argument is the number of
  colours, at most \<open>MAX_COL + 1\<close>, so the copy of the \<^verbatim>\<open>unsigned\<close> parameter into the
  \<^verbatim>\<open>int n\<close> keeps its value and the shift is a division by two.
\<close>

fun bpc_loop :: "nat \<Rightarrow> nat \<Rightarrow> nat" where
  "bpc_loop bpc n = (if n = 0 then bpc else bpc_loop (bpc + 1) (n div 2))"

declare bpc_loop.simps [simp del]

definition num_chars_per_pixel :: "nat \<Rightarrow> nat" where
  "num_chars_per_pixel ncols =
     (let bpc = bpc_loop 0 ncols;
          n = bpc div 6
      in if n * 6 < bpc then n + 1 else n)"

subsection \<open>Encoding numbers as text\<close>

definition ctbl :: string where
  "ctbl = ''ABCDEFGHIJKLMNOPQRSTUVWXYZabcdefghijklmnopqrstuvwxyz0123456789+/''"

text \<open>
  \<^verbatim>\<open>col_encode_base64\<close>: \<^verbatim>\<open>pix\<close> is an \<^verbatim>\<open>int\<close>; the arithmetic shift is the floor
  division and the mask is the remainder modulo 64, also for a negative \<^verbatim>\<open>pix\<close>.  The
  terminating \<^verbatim>\<open>\0\<close> is not part of the text.
\<close>

fun col_encode_base64 :: "int \<Rightarrow> nat \<Rightarrow> string" where
  "col_encode_base64 pix 0 = []"
| "col_encode_base64 pix (Suc cpp) =
     ctbl ! nat (drop_bit (cpp * 6) pix AND 0x3f) # col_encode_base64 pix cpp"

text \<open>\<^verbatim>\<open>snprintf (dst, 7, "%06x", c & 0xffffff)\<close>: six lower-case hexadecimal digits.\<close>

definition hex_digit :: "nat \<Rightarrow> char" where
  "hex_digit d = ''0123456789abcdef'' ! d"

definition col_encode_html :: "nat \<Rightarrow> string" where
  "col_encode_html c =
     (let v = c mod 0x1000000
      in map (\<lambda>i. hex_digit ((v div 16 ^ (5 - i)) mod 16)) [0..<6])"

text \<open>The conversion \<^verbatim>\<open>%d\<close> of a non-negative number.\<close>

definition dec_digit :: "nat \<Rightarrow> char" where
  "dec_digit d = ''0123456789'' ! d"

fun dec :: "nat \<Rightarrow> string" where
  "dec n = (if n < 10 then [dec_digit n] else dec (n div 10) @ [dec_digit (n mod 10)])"

declare dec.simps [simp del]

subsection \<open>The size estimate\<close>

text \<open>
  \<^verbatim>\<open>xpm_size\<close> computes in \<^verbatim>\<open>int\<close>.  The result goes through \<^verbatim>\<open>size_t\<close> back into the
  \<^verbatim>\<open>int xpmsize\<close>, which keeps the 32-bit value; \<open>sint\<close> reads it.
\<close>

definition xpm_size :: "32 word \<Rightarrow> 32 word \<Rightarrow> 32 word \<Rightarrow> 32 word \<Rightarrow> 32 word" where
  "xpm_size w h ncols cpp =
     (let ctbls = (cpp + 14) * ncols;
          ptbls = ((w * cpp) + 4) * h
      in ctbls + ptbls + 256)"

subsection \<open>The document\<close>

text \<open>
  The writing code stores into two buffers without looking at their sizes: the array
  \<^verbatim>\<open>char cb[5]\<close>, which receives the symbols of a colour and their final \<^verbatim>\<open>\0\<close>, and
  \<^verbatim>\<open>xbuf\<close>, where \<^verbatim>\<open>col_encode_base64\<close> stores the symbols of the pixels and \<^verbatim>\<open>pos\<close> is
  advanced by the full length of every line.  A store past the end of either is
  undefined behaviour of the C program; it is the outcome \<open>Overrun\<close>.
\<close>

datatype 'a outcome = Returns 'a | Overrun

definition nl :: char where
  "nl = CHR 0x0A"

definition dq :: char where
  "dq = CHR 0x22"

text \<open>
  \<^verbatim>\<open>"/* XPM */\nstatic char *xpm_c%d_[] = {\n\"%d %d %d %d\""\<close> with the arguments
  \<^verbatim>\<open>ncols, width, height, ncols, cpp\<close>.
\<close>

definition xpm_header :: "nat \<Rightarrow> nat \<Rightarrow> nat \<Rightarrow> nat \<Rightarrow> string" where
  "xpm_header w h ncols cpp =
     ''/* XPM */'' @ [nl] @ ''static char *xpm_c'' @ dec ncols @ ''_[] = {'' @ [nl] @ [dq]
     @ dec w @ '' '' @ dec h @ '' '' @ dec ncols @ '' '' @ dec cpp @ [dq]"

text \<open>
  The colour table: \<^verbatim>\<open>for (int i = 0; i < MAX_COL + 1; i++) if (colors[i]) ...\<close>.
  \<open>color_table_keys\<close> is the sequence of the \<open>i\<close> for which a line is written.
\<close>

definition color_table_keys :: "(nat \<Rightarrow> nat) \<Rightarrow> nat list" where
  "color_table_keys colors = filter (\<lambda>i. colors i \<noteq> 0) [0..<MAX_COL + 1]"

text \<open>
  Lines 207--212.  \<^verbatim>\<open>col_encode_base64 (cb, colors[i] - 1, cpp)\<close> stores \<open>cpp + 1\<close> bytes
  in \<^verbatim>\<open>char cb[5]\<close>; \<^verbatim>\<open>col_encode_html\<close> is bounded by its \<^verbatim>\<open>snprintf\<close>.
\<close>

definition color_line :: "(nat \<Rightarrow> nat) \<Rightarrow> nat \<Rightarrow> nat \<Rightarrow> string outcome" where
  "color_line colors cpp i =
     (if 5 < cpp + 1 then Overrun
      else
        let cb = col_encode_base64 (int (colors i) - 1) cpp;
            ch = col_encode_html i
        in if i < MAX_COL then Returns ('','' @ [nl] @ [dq] @ cb @ '' c #'' @ ch @ [dq])
           else Returns ('','' @ [nl] @ [dq] @ cb @ '' c None'' @ [dq]))"

definition color_table :: "(nat \<Rightarrow> nat) \<Rightarrow> nat \<Rightarrow> string list outcome" where
  "color_table colors cpp =
     foldl (\<lambda>acc i. case acc of
                       Overrun \<Rightarrow> Overrun
                     | Returns ls \<Rightarrow>
                         (case color_line colors cpp i of
                            Overrun \<Rightarrow> Overrun
                          | Returns l \<Rightarrow> Returns (ls @ [l])))
           (Returns []) (color_table_keys colors)"

text \<open>
  The pixel table, one line for every \<open>y\<close>.  \<open>pixel_symbols\<close> is what the inner loop
  writes, the text between the quotes.
\<close>

definition pixel_symbols :: "image \<Rightarrow> (nat \<Rightarrow> nat) \<Rightarrow> nat \<Rightarrow> nat \<Rightarrow> string" where
  "pixel_symbols sfc colors cpp y =
     concat (map (\<lambda>x. col_encode_base64
                         (int (colors (row_color (get_argb24_pixel sfc x y))) - 1) cpp)
                 [0..<get_width sfc])"

definition pixel_line :: "image \<Rightarrow> (nat \<Rightarrow> nat) \<Rightarrow> nat \<Rightarrow> nat \<Rightarrow> string" where
  "pixel_line sfc colors cpp y = '','' @ [nl] @ [dq] @ pixel_symbols sfc colors cpp y @ [dq]"

definition pixel_table :: "image \<Rightarrow> (nat \<Rightarrow> nat) \<Rightarrow> nat \<Rightarrow> string list" where
  "pixel_table sfc colors cpp = map (pixel_line sfc colors cpp) [0..<get_height sfc]"

definition xpm_footer :: string where
  "xpm_footer = [nl] @ ''};'' @ [nl]"

text \<open>
  Everything written into \<^verbatim>\<open>xbuf\<close>, lines 193--241, when \<^verbatim>\<open>cb\<close> holds the symbols;
  \<^verbatim>\<open>pos\<close> ends as its length.
\<close>

definition xpm_document :: "image \<Rightarrow> string outcome" where
  "xpm_document sfc =
     (case count_colors sfc of (colors, ncols) \<Rightarrow>
        let cpp = num_chars_per_pixel ncols in
        case color_table colors cpp of
          Overrun \<Rightarrow> Overrun
        | Returns ctab \<Rightarrow>
            Returns (xpm_header (get_width sfc) (get_height sfc) ncols cpp
                     @ concat ctab
                     @ concat (pixel_table sfc colors cpp)
                     @ xpm_footer))"

subsection \<open>The entry points\<close>

text \<open>
  The values of \<^verbatim>\<open>cairo_status_t\<close>, \<^verbatim>\<open>cairo_surface_type_t\<close> and \<^verbatim>\<open>cairo_format_t\<close>
  that the source names; every other surface type is \<open>CAIRO_SURFACE_TYPE_OTHER\<close> and every
  other format \<open>CAIRO_FORMAT_OTHER\<close>.
\<close>

datatype cairo_status =
    CAIRO_STATUS_SUCCESS
  | CAIRO_STATUS_NO_MEMORY
  | CAIRO_STATUS_INVALID_FORMAT
  | CAIRO_STATUS_WRITE_ERROR
  | CAIRO_STATUS_DEVICE_ERROR

datatype cairo_surface_type = CAIRO_SURFACE_TYPE_IMAGE | CAIRO_SURFACE_TYPE_OTHER

datatype cairo_format = CAIRO_FORMAT_ARGB32 | CAIRO_FORMAT_RGB24 | CAIRO_FORMAT_OTHER

record surface =
  cairo_surface_get_type :: cairo_surface_type
  cairo_image_surface_get_format :: cairo_format
  surface_image :: image

text \<open>
  What the library and the allocator answer during one call: the RGB24 image that
  \<^verbatim>\<open>cairo_surface_create_similar_image\<close> and the painting give for a surface (\<open>None\<close> when
  the status of the new surface is not \<^verbatim>\<open>CAIRO_STATUS_SUCCESS\<close>), whether \<^verbatim>\<open>calloc\<close> gives
  the table, and whether \<^verbatim>\<open>malloc\<close> gives a buffer of the requested size.
\<close>

record env =
  similar_image :: "surface \<Rightarrow> image option"
  calloc_ok :: bool
  malloc_ok :: "nat \<Rightarrow> bool"

text \<open>
  Lines 131--155: the surface that is encoded is \<^verbatim>\<open>sfc\<close> itself when it is an image
  surface of format ARGB32 or RGB24, and otherwise the similar RGB24 image surface onto
  which \<^verbatim>\<open>sfc\<close> is painted; \<open>None\<close> is the \<^verbatim>\<open>return CAIRO_STATUS_INVALID_FORMAT\<close>.
\<close>

definition encoded_image :: "env \<Rightarrow> surface \<Rightarrow> image option" where
  "encoded_image e sfc =
     (if cairo_surface_get_type sfc \<noteq> CAIRO_SURFACE_TYPE_IMAGE \<or>
         (cairo_image_surface_get_format sfc \<noteq> CAIRO_FORMAT_ARGB32 \<and>
          cairo_image_surface_get_format sfc \<noteq> CAIRO_FORMAT_RGB24)
      then similar_image e sfc
      else Some (surface_image sfc))"

text \<open>
  \<^verbatim>\<open>cairo_image_surface_write_to_xpm_mem\<close>.  The result is the returned status with the
  final \<^verbatim>\<open>*data\<close> (\<open>None\<close> is \<^verbatim>\<open>NULL\<close>) and \<^verbatim>\<open>*len\<close>; both are set to \<^verbatim>\<open>NULL\<close> and 0 first
  and assigned again only before the last \<^verbatim>\<open>return\<close>.  A negative \<^verbatim>\<open>xpmsize\<close> reaches
  \<^verbatim>\<open>malloc\<close> as a \<^verbatim>\<open>size_t\<close> above \<open>2 ^ 63\<close>, which no allocation satisfies.  A document
  of \<open>n\<close> characters and its final \<^verbatim>\<open>\0\<close> need \<open>n + 1\<close> bytes of \<^verbatim>\<open>xbuf\<close>.
\<close>

definition cairo_image_surface_write_to_xpm_mem ::
    "env \<Rightarrow> surface \<Rightarrow> (cairo_status \<times> string option \<times> nat) outcome" where
  "cairo_image_surface_write_to_xpm_mem e sfc =
     (case encoded_image e sfc of
        None \<Rightarrow> Returns (CAIRO_STATUS_INVALID_FORMAT, None, 0)
      | Some img \<Rightarrow>
          if \<not> calloc_ok e then Returns (CAIRO_STATUS_NO_MEMORY, None, 0)
          else
            (case count_colors img of (colors, ncols) \<Rightarrow>
               let cpp = num_chars_per_pixel ncols;
                   xpmsize = sint (xpm_size (word_of_nat (get_width img))
                                            (word_of_nat (get_height img))
                                            (word_of_nat ncols) (word_of_nat cpp))
               in if xpmsize < 0 \<or> \<not> malloc_ok e (nat xpmsize)
                  then Returns (CAIRO_STATUS_NO_MEMORY, None, 0)
                  else
                    (case xpm_document img of
                       Overrun \<Rightarrow> Overrun
                     | Returns doc \<Rightarrow>
                         if nat xpmsize < length doc + 1 then Overrun
                         else Returns (CAIRO_STATUS_SUCCESS, Some doc, length doc))))"

text \<open>
  \<^verbatim>\<open>cairo_image_surface_write_to_xpm_stream\<close>.  The second component lists the calls of
  \<^verbatim>\<open>write_func\<close> with their arguments \<^verbatim>\<open>data\<close> and \<^verbatim>\<open>len\<close>.
\<close>

definition cairo_image_surface_write_to_xpm_stream ::
    "env \<Rightarrow> surface \<Rightarrow> (string option \<Rightarrow> nat \<Rightarrow> cairo_status)
       \<Rightarrow> (cairo_status \<times> (string option \<times> nat) list) outcome" where
  "cairo_image_surface_write_to_xpm_stream e sfc write_func =
     (case cairo_image_surface_write_to_xpm_mem e sfc of
        Overrun \<Rightarrow> Overrun
      | Returns (st, data, len) \<Rightarrow>
          if st \<noteq> CAIRO_STATUS_SUCCESS then Returns (st, [])
          else Returns (write_func data len, [(data, len)]))"

subsection \<open>Notions used to state the properties\<close>

text \<open>
  The colours of the pixels in the order in which the counting pass visits them: row by
  row from the top, each row from the left.
\<close>

definition pixel_keys :: "image \<Rightarrow> nat list" where
  "pixel_keys sfc =
     concat (map (\<lambda>y. map (\<lambda>x. count_color (get_argb24_pixel sfc x y)) [0..<get_width sfc])
                 [0..<get_height sfc])"

text \<open>The position of the first occurrence of \<open>k\<close> in a sequence.\<close>

definition first_pos :: "'a list \<Rightarrow> 'a \<Rightarrow> nat" where
  "first_pos ks k = length (takeWhile (\<lambda>j. j \<noteq> k) ks)"

text \<open>The step of the counting pass on the colour of the pixel.\<close>

definition count_key :: "palette \<Rightarrow> nat \<Rightarrow> palette" where
  "count_key st col =
     (case st of (colors, ncols) \<Rightarrow>
        if colors col = 0 then (colors(col := ncols + 1), ncols + 1)
        else (colors, ncols))"

text \<open>The characters of the colour line of the key \<open>i\<close>.\<close>

definition color_text :: "(nat \<Rightarrow> nat) \<Rightarrow> nat \<Rightarrow> nat \<Rightarrow> string" where
  "color_text colors cpp i =
     [CHR '','', nl, dq] @ col_encode_base64 (int (colors i) - 1) cpp
     @ (if i < MAX_COL then '' c #'' @ col_encode_html i else '' c None'') @ [dq]"

text \<open>An image given by its rows.\<close>

definition image_of_rows :: "nat \<Rightarrow> 32 word list list \<Rightarrow> image" where
  "image_of_rows w rows =
     \<lparr>get_width = w, get_height = length rows, get_argb24_pixel = (\<lambda>x y. rows ! y ! x)\<rparr>"

text \<open>
  A 2 by 2 image: blue and a pixel with alpha \<open>0x10\<close> in the first row, the same blue
  and red in the second.
\<close>

definition example_image :: image where
  "example_image = image_of_rows 2 [[0xff0000ff, 0x10123456], [0xff0000ff, 0xffff0000]]"

text \<open>The table \<^verbatim>\<open>colors\<close> after the counting pass over this image.\<close>

definition example_colors :: "nat \<Rightarrow> nat" where
  "example_colors = (\<lambda>_. 0)(0xff := 1, MAX_COL := 2, 0xff0000 := 3)"

text \<open>
  Two images of one row: a colour with the larger value first, and a pixel below the
  transparency threshold first.
\<close>

definition swapped_image :: image where
  "swapped_image = image_of_rows 2 [[0xff0000ff, 0xff000001]]"

definition swapped_colors :: "nat \<Rightarrow> nat" where
  "swapped_colors = (\<lambda>_. 0)(0xff := 1, 1 := 2)"

definition transparent_first_image :: image where
  "transparent_first_image = image_of_rows 2 [[0x10000000, 0xff0000ff]]"

text \<open>
  An image surface of format ARGB32, and a run in which every allocation succeeds.
\<close>

definition argb32_surface :: "image \<Rightarrow> surface" where
  "argb32_surface img =
     \<lparr>cairo_surface_get_type = CAIRO_SURFACE_TYPE_IMAGE,
      cairo_image_surface_get_format = CAIRO_FORMAT_ARGB32,
      surface_image = img\<rparr>"

definition generous_env :: env where
  "generous_env = \<lparr>similar_image = (\<lambda>_. None), calloc_ok = True, malloc_ok = (\<lambda>_. True)\<rparr>"

text \<open>A run in which \<^verbatim>\<open>calloc\<close> fails.\<close>

definition no_table_env :: env where
  "no_table_env = \<lparr>similar_image = (\<lambda>_. None), calloc_ok = False, malloc_ok = (\<lambda>_. True)\<rparr>"

text \<open>An image of width 0 and height 2.\<close>

definition empty_rows_image :: image where
  "empty_rows_image = image_of_rows 0 [[], []]"


text \<open>
  An image of 4096 by 4096 pixels in which every one of the \<open>2 ^ 24\<close> colours occurs once,
  all opaque.
\<close>

definition full_palette_image :: image where
  "full_palette_image =
     \<lparr>get_width = 4096, get_height = 4096,
      get_argb24_pixel = (\<lambda>x y. 0xff000000 + word_of_nat (y * 4096 + x))\<rparr>"

text \<open>The tables \<^verbatim>\<open>colors\<close> of two of the images above.\<close>

definition transparent_first_colors :: "nat \<Rightarrow> nat" where
  "transparent_first_colors = (\<lambda>_. 0)(MAX_COL := 1, 0xff := 2)"

text \<open>The documents of \<open>example_image\<close>, \<open>swapped_image\<close> and \<open>transparent_first_image\<close>.\<close>

definition example_document :: string where
  "example_document =
     ''/* XPM */'' @ [nl] @ ''static char *xpm_c3_[] = {'' @ [nl, dq] @ ''2 2 3 1'' @ [dq]
     @ [CHR '','', nl, dq] @ ''A c #0000ff'' @ [dq]
     @ [CHR '','', nl, dq] @ ''C c #ff0000'' @ [dq]
     @ [CHR '','', nl, dq] @ ''B c None'' @ [dq]
     @ [CHR '','', nl, dq] @ ''AB'' @ [dq]
     @ [CHR '','', nl, dq] @ ''AC'' @ [dq]
     @ [nl] @ ''};'' @ [nl]"

definition swapped_document :: string where
  "swapped_document =
     ''/* XPM */'' @ [nl] @ ''static char *xpm_c2_[] = {'' @ [nl, dq] @ ''2 1 2 1'' @ [dq]
     @ [CHR '','', nl, dq] @ ''B c #000001'' @ [dq]
     @ [CHR '','', nl, dq] @ ''A c #0000ff'' @ [dq]
     @ [CHR '','', nl, dq] @ ''AB'' @ [dq]
     @ [nl] @ ''};'' @ [nl]"

definition transparent_first_document :: string where
  "transparent_first_document =
     ''/* XPM */'' @ [nl] @ ''static char *xpm_c2_[] = {'' @ [nl, dq] @ ''2 1 2 1'' @ [dq]
     @ [CHR '','', nl, dq] @ ''B c #0000ff'' @ [dq]
     @ [CHR '','', nl, dq] @ ''A c None'' @ [dq]
     @ [CHR '','', nl, dq] @ ''AB'' @ [dq]
     @ [nl] @ ''};'' @ [nl]"

section \<open>Properties\<close>

subsection \<open>The colour rule\<close>

lemma alpha_byte: "signed_drop_bit 24 (col :: 32 word) AND 0xff = drop_bit 24 col AND 0xff"
proof -
  have m: "(0xff :: 32 word) = mask 8" by (simp add: mask_eq_exp_minus_1)
  show ?thesis unfolding m
    by (rule bit_word_eqI) (auto simp add: bit_simps dest: bit_imp_le_length)
qed

lemma rgb_bits: "unat ((col :: 32 word) AND 0xffffff) = unat col mod 2 ^ 24"
proof -
  have m: "(0xffffff :: 32 word) = mask 24" by (simp add: mask_eq_exp_minus_1)
  show ?thesis unfolding m
    by (simp add: take_bit_eq_mask [symmetric] unsigned_take_bit_eq take_bit_eq_mod unat_mod)
qed

lemma rgb_bits_less: "unat ((col :: 32 word) AND 0xffffff) < MAX_COL"
  by (simp add: rgb_bits MAX_COL_def)

lemma row_color_eq: "row_color col = count_color col"
  by (simp add: row_color_def count_color_def)

lemma count_color_le: "count_color col \<le> MAX_COL"
  using rgb_bits_less [of col] by (simp add: count_color_def)

lemma count_color_alt:
  "count_color pixel =
     (if drop_bit 24 pixel AND 0xff < TRANS_THRESH then MAX_COL else unat (pixel AND 0xffffff))"
  by (simp only: count_color_def alpha_byte)

text \<open>
  C1.  The colour given to a pixel is the sentinel \<open>MAX_COL\<close> exactly when its alpha byte
  \<open>pixel >> 24 & 0xff\<close> is below \<open>TRANS_THRESH = 0x80\<close>; otherwise it is the low 24 bits
  of the pixel.  The pixel-table pass uses the same colour as the counting pass.
\<close>

theorem pixel_color_rule:
  "(count_color pixel = MAX_COL \<longleftrightarrow> drop_bit 24 pixel AND 0xff < TRANS_THRESH) \<and>
   (\<not> drop_bit 24 pixel AND 0xff < TRANS_THRESH \<longrightarrow>
      count_color pixel = unat (pixel AND 0x00ffffff)) \<and>
   row_color pixel = count_color pixel \<and>
   TRANS_THRESH = 0x80"
proof (cases "drop_bit 24 pixel AND 0xff < TRANS_THRESH")
  case True
  then show ?thesis
    by (simp only: count_color_alt row_color_eq if_True TRANS_THRESH_def simp_thms)
next
  case False
  have "unat (pixel AND 0xffffff) \<noteq> MAX_COL"
    using rgb_bits_less [of pixel] by linarith
  with False show ?thesis
    by (simp only: count_color_alt row_color_eq if_False TRANS_THRESH_def simp_thms)
qed

theorem pixel_color_rule_witness:
  "\<not> drop_bit 24 (0x80ff0001 :: 32 word) AND 0xff < TRANS_THRESH \<and>
   count_color 0x80ff0001 = 0xff0001 \<and> row_color 0x80ff0001 = 0xff0001 \<and>
   drop_bit 24 (0x7fff0001 :: 32 word) AND 0xff < TRANS_THRESH \<and>
   count_color 0x7fff0001 = MAX_COL \<and> row_color 0x7fff0001 = MAX_COL"
proof -
  have a: "\<not> drop_bit 24 (0x80ff0001 :: 32 word) AND 0xff < TRANS_THRESH"
    by (simp add: TRANS_THRESH_def)
  have b: "drop_bit 24 (0x7fff0001 :: 32 word) AND 0xff < TRANS_THRESH"
    by (simp add: TRANS_THRESH_def)
  have c: "unat ((0x80ff0001 :: 32 word) AND 0x00ffffff) = 0xff0001"
    by simp
  from pixel_color_rule [of "0x80ff0001"] pixel_color_rule [of "0x7fff0001"] a b c
  show ?thesis by (simp only: simp_thms)
qed
subsection \<open>The counting pass\<close>

lemma count_pixel_key: "count_pixel st pixel = count_key st (count_color pixel)"
  by (simp add: count_pixel_def count_key_def Let_def)

lemma count_colors_foldl: "count_colors sfc = foldl count_key (\<lambda>_. 0, 0) (pixel_keys sfc)"
proof -
  have row: "foldl (\<lambda>st x. count_pixel st (get_argb24_pixel sfc x y)) st xs
      = foldl count_key st (map (\<lambda>x. count_color (get_argb24_pixel sfc x y)) xs)" for st y xs
    by (induction xs arbitrary: st) (simp_all add: count_pixel_key)
  have "foldl (\<lambda>st y. foldl (\<lambda>st x. count_pixel st (get_argb24_pixel sfc x y)) st
                      [0..<get_width sfc]) st ys
      = foldl count_key st (concat (map (\<lambda>y. map (\<lambda>x. count_color (get_argb24_pixel sfc x y))
           [0..<get_width sfc]) ys))" for st ys
    by (induction ys arbitrary: st) (simp_all add: row)
  then show ?thesis by (simp add: count_colors_def pixel_keys_def)
qed

lemma length_pixel_keys: "length (pixel_keys sfc) = get_width sfc * get_height sfc"
  by (simp add: pixel_keys_def length_concat comp_def sum_list_triv)

lemma nth_concat_rows:
  "\<forall>r \<in> set rows. length r = w \<Longrightarrow> y < length rows \<Longrightarrow> x < w \<Longrightarrow>
     concat rows ! (y * w + x) = rows ! y ! x"
proof (induction rows arbitrary: y)
  case Nil then show ?case by simp
next
  case (Cons r rows)
  show ?case
  proof (cases y)
    case 0 then show ?thesis using Cons.prems by (simp add: nth_append)
  next
    case (Suc y')
    then have "concat rows ! (y' * w + x) = rows ! y' ! x" using Cons by simp
    moreover have "Suc y' * w + x = w + (y' * w + x)" by simp
    ultimately show ?thesis using Cons.prems Suc by (simp add: nth_append)
  qed
qed

lemma nth_pixel_keys:
  "x < get_width sfc \<Longrightarrow> y < get_height sfc \<Longrightarrow>
     pixel_keys sfc ! (y * get_width sfc + x) = count_color (get_argb24_pixel sfc x y)"
  unfolding pixel_keys_def
  by (subst nth_concat_rows [where w = "get_width sfc"]) auto

lemma set_pixel_keys:
  "set (pixel_keys sfc) =
     {count_color (get_argb24_pixel sfc x y) | x y. x < get_width sfc \<and> y < get_height sfc}"
  by (auto simp add: pixel_keys_def) blast

lemma pixel_keys_le: "k \<in> set (pixel_keys sfc) \<Longrightarrow> k \<le> MAX_COL"
  by (auto simp add: set_pixel_keys count_color_le)

lemma first_pos_append_in: "k \<in> set ks \<Longrightarrow> first_pos (ks @ js) k = first_pos ks k"
  by (simp add: first_pos_def)

lemma first_pos_append_new: "k \<notin> set ks \<Longrightarrow> first_pos (ks @ [k]) k = length ks"
  by (induction ks) (auto simp add: first_pos_def)

lemma first_pos_less: "k \<in> set ks \<Longrightarrow> first_pos ks k < length ks"
  unfolding first_pos_def by (induction ks) auto

lemma nth_first_pos: "k \<in> set ks \<Longrightarrow> ks ! first_pos ks k = k"
  unfolding first_pos_def by (induction ks) auto

lemma count_inv:
  "foldl count_key (\<lambda>_. 0, 0) ks = (colors, ncols) \<Longrightarrow>
     (\<forall>k. colors k \<noteq> 0 \<longleftrightarrow> k \<in> set ks) \<and>
     colors ` set ks = {1..ncols} \<and>
     (\<forall>a\<in>set ks. \<forall>b\<in>set ks. colors a < colors b \<longleftrightarrow> first_pos ks a < first_pos ks b)"
proof (induction ks arbitrary: colors ncols rule: rev_induct)
  case Nil
  then show ?case by auto
next
  case (snoc k ks)
  obtain c n where cn: "foldl count_key (\<lambda>_. 0, 0) ks = (c, n)"
    by (cases "foldl count_key (\<lambda>_. 0, 0) ks")
  from snoc.IH [OF cn]
  have nz: "\<And>j. c j \<noteq> 0 \<longleftrightarrow> j \<in> set ks"
    and img: "c ` set ks = {1..n}"
    and ord: "\<And>a b. a \<in> set ks \<Longrightarrow> b \<in> set ks \<Longrightarrow>
               c a < c b \<longleftrightarrow> first_pos ks a < first_pos ks b"
    by auto
  from snoc.prems have step: "count_key (c, n) k = (colors, ncols)"
    by (simp add: cn)
  show ?case
  proof (cases "c k = 0")
    case False
    then have k: "k \<in> set ks" using nz [of k] by auto
    from False step have eq: "colors = c" "ncols = n"
      by (simp_all add: count_key_def)
    have "set (ks @ [k]) = set ks" using k by auto
    then show ?thesis using nz img ord k
      by (simp add: eq first_pos_append_in)
  next
    case True
    then have k: "k \<notin> set ks" using nz [of k] by auto
    from True step have eq: "colors = c(k := n + 1)" "ncols = n + 1"
      by (auto simp add: count_key_def)
    have le: "c a \<le> n" if "a \<in> set ks" for a
      using img that by auto
    have 1: "\<forall>j. colors j \<noteq> 0 \<longleftrightarrow> j \<in> set (ks @ [k])"
      using nz k by (auto simp add: eq)
    have "colors ` set (ks @ [k]) = insert (n + 1) (c ` set ks)"
      using k by (auto simp add: eq)
    then have 2: "colors ` set (ks @ [k]) = {1..ncols}"
      using img by (auto simp add: eq)
    have 3: "colors a < colors b \<longleftrightarrow> first_pos (ks @ [k]) a < first_pos (ks @ [k]) b"
      if ab: "a \<in> set (ks @ [k])" "b \<in> set (ks @ [k])" for a b
    proof -
      consider "a \<in> set ks" "b \<in> set ks" | "a \<in> set ks" "b = k" | "a = k" "b \<in> set ks" | "a = k" "b = k"
        using ab by auto
      then show ?thesis
      proof cases
        case 1
        then show ?thesis using k ord by (auto simp add: eq first_pos_append_in)
      next
        case 2
        then show ?thesis using k le [of a] first_pos_less [of a ks]
          by (auto simp add: eq first_pos_append_in first_pos_append_new)
      next
        case 3
        then show ?thesis using k le [of b] first_pos_less [of b ks]
          by (auto simp add: eq first_pos_append_in first_pos_append_new)
      next
        case 4
        then show ?thesis by simp
      qed
    qed
    from 1 2 3 show ?thesis by blast
  qed
qed

lemma count_inj:
  assumes "foldl count_key (\<lambda>_. 0, 0) ks = (colors, ncols)"
  shows "inj_on colors (set ks)" "ncols = card (set ks)"
proof -
  from count_inv [OF assms]
  have ord: "\<And>a b. a \<in> set ks \<Longrightarrow> b \<in> set ks \<Longrightarrow>
               colors a < colors b \<longleftrightarrow> first_pos ks a < first_pos ks b"
    and img: "colors ` set ks = {1..ncols}"
    by auto
  have fp: "first_pos ks a = first_pos ks b \<Longrightarrow> a = b" if "a \<in> set ks" "b \<in> set ks" for a b
    using that nth_first_pos [of a ks] nth_first_pos [of b ks] by metis
  show inj: "inj_on colors (set ks)"
  proof (rule inj_onI)
    fix a b assume ab: "a \<in> set ks" "b \<in> set ks" "colors a = colors b"
    then have "\<not> first_pos ks a < first_pos ks b" "\<not> first_pos ks b < first_pos ks a"
      using ord [of a b] ord [of b a] by auto
    then show "a = b" using fp ab by auto
  qed
  have "card (set ks) = card (colors ` set ks)" using inj by (simp add: card_image)
  then show "ncols = card (set ks)" using img by simp
qed

subsection \<open>The number of characters per pixel\<close>

lemma bpc_loop_add: "bpc_loop b n = b + bpc_loop 0 n"
proof (induction n arbitrary: b rule: less_induct)
  case (less n)
  show ?case
  proof (cases "n = 0")
    case True then show ?thesis by (simp add: bpc_loop.simps)
  next
    case False
    then have lt: "n div 2 < n" by simp
    have a: "bpc_loop b n = bpc_loop (b + 1) (n div 2)"
      using False by (subst bpc_loop.simps) simp
    have b: "bpc_loop (b + 1) (n div 2) = b + 1 + bpc_loop 0 (n div 2)"
      by (rule less [OF lt])
    have c: "bpc_loop 1 (n div 2) = 1 + bpc_loop 0 (n div 2)"
      by (rule less [OF lt])
    have d: "bpc_loop 0 n = bpc_loop 1 (n div 2)"
      using False by (subst bpc_loop.simps) simp
    show ?thesis using a b c d by simp
  qed
qed

lemma bpc_loop_0 [simp]: "bpc_loop 0 0 = 0"
  by (simp add: bpc_loop.simps)

lemma bpc_loop_pos: "0 < n \<Longrightarrow> bpc_loop 0 n = Suc (bpc_loop 0 (n div 2))"
  by (subst bpc_loop.simps, subst bpc_loop_add) simp

lemma bpc_loop_upper: "n < 2 ^ bpc_loop 0 n"
proof (induction n rule: less_induct)
  case (less n)
  show ?case
  proof (cases "n = 0")
    case True then show ?thesis by simp
  next
    case False
    then have "n div 2 < 2 ^ bpc_loop 0 (n div 2)" by (intro less) simp
    then have "n < 2 * 2 ^ bpc_loop 0 (n div 2)" by linarith
    then show ?thesis using False by (simp add: bpc_loop_pos)
  qed
qed

lemma bpc_loop_lower: "0 < n \<Longrightarrow> 2 ^ (bpc_loop 0 n - 1) \<le> n"
proof (induction n rule: less_induct)
  case (less n)
  show ?case
  proof (cases "n div 2 = 0")
    case True
    then have "n = 1" using less.prems by linarith
    then show ?thesis by (simp add: bpc_loop_pos)
  next
    case False
    then have "2 ^ (bpc_loop 0 (n div 2) - 1) \<le> n div 2"
      using less.prems by (intro less) simp_all
    moreover have "bpc_loop 0 (n div 2) > 0" using False by (simp add: bpc_loop_pos)
    ultimately have "2 ^ bpc_loop 0 (n div 2) \<le> 2 * (n div 2)"
      by (cases "bpc_loop 0 (n div 2)") simp_all
    then show ?thesis using less.prems by (simp add: bpc_loop_pos)
  qed
qed

lemma bpc_loop_least: "n < 2 ^ b \<Longrightarrow> bpc_loop 0 n \<le> b"
proof (cases "n = 0")
  case True then show ?thesis by simp
next
  case False
  assume "n < 2 ^ b"
  with bpc_loop_lower [of n] False have "(2::nat) ^ (bpc_loop 0 n - 1) < 2 ^ b" by linarith
  then have "bpc_loop 0 n - 1 < b" by simp
  then show ?thesis by simp
qed

lemma bpc_loop_mono: "m \<le> n \<Longrightarrow> bpc_loop 0 m \<le> bpc_loop 0 n"
  by (rule bpc_loop_least) (use bpc_loop_upper [of n] in simp)

lemma num_chars_ceil: "num_chars_per_pixel n = (bpc_loop 0 n + 5) div 6"
  by (simp add: num_chars_per_pixel_def Let_def) presburger

lemma num_chars_ceiling: "int (num_chars_per_pixel n) = \<lceil>real (bpc_loop 0 n) / 6\<rceil>"
proof -
  have "\<lceil>real (bpc_loop 0 n) / 6\<rceil> = \<lceil>real_of_int (int (bpc_loop 0 n)) / real_of_int 6\<rceil>"
    by simp
  also have "\<dots> = - (- int (bpc_loop 0 n) div 6)" by (rule ceiling_divide_eq_div)
  also have "\<dots> = int ((bpc_loop 0 n + 5) div 6)" by (simp add: zdiv_int)
  finally show ?thesis by (simp add: num_chars_ceil)
qed

lemma num_chars_mono: "m \<le> n \<Longrightarrow> num_chars_per_pixel m \<le> num_chars_per_pixel n"
  by (simp add: num_chars_ceil div_le_mono bpc_loop_mono)

lemma num_chars_capacity: "n < 64 ^ num_chars_per_pixel n"
proof -
  have "bpc_loop 0 n \<le> 6 * num_chars_per_pixel n" by (simp add: num_chars_ceil)
  then have "(2::nat) ^ bpc_loop 0 n \<le> 2 ^ (6 * num_chars_per_pixel n)" by simp
  also have "\<dots> = 64 ^ num_chars_per_pixel n" by (simp add: power_mult)
  finally show ?thesis using bpc_loop_upper [of n] by linarith
qed

lemma num_chars_0: "num_chars_per_pixel 0 = 0"
  by (simp add: num_chars_ceil)

text \<open>
  C3.  The loop of \<open>num_chars_per_pixel\<close> computes \<open>bitsNeeded\<close>, the smallest \<open>b\<close> with
  \<open>paletteSize < 2 ^ b\<close>, and the result is \<open>\<lceil>bitsNeeded / 6\<rceil>\<close>.  The result is 0 for
  0 colours, it is monotone, and for \<open>n \<ge> 1\<close> colours \<open>64 ^ num_chars_per_pixel n\<close>
  exceeds \<open>n - 1\<close>.
\<close>

theorem num_chars_per_pixel_width:
  "paletteSize < 2 ^ bpc_loop 0 paletteSize \<and>
   (\<forall>b. paletteSize < 2 ^ b \<longrightarrow> bpc_loop 0 paletteSize \<le> b) \<and>
   int (num_chars_per_pixel paletteSize) = \<lceil>real (bpc_loop 0 paletteSize) / 6\<rceil> \<and>
   num_chars_per_pixel 0 = 0 \<and>
   (m \<le> n \<longrightarrow> num_chars_per_pixel m \<le> num_chars_per_pixel n) \<and>
   (1 \<le> n \<longrightarrow> n - 1 < 64 ^ num_chars_per_pixel n)"
proof -
  have "n - 1 < 64 ^ num_chars_per_pixel n" if "1 \<le> n"
    using num_chars_capacity [of n] that by linarith
  then show ?thesis
    by (simp add: bpc_loop_upper bpc_loop_least num_chars_ceiling num_chars_0 num_chars_mono)
qed

theorem num_chars_per_pixel_width_witness:
  "(4096 :: nat) < 2 ^ 13 \<and> bpc_loop 0 4096 \<le> 13 \<and>
   (63 :: nat) \<le> 4096 \<and> num_chars_per_pixel 63 \<le> num_chars_per_pixel 4096 \<and>
   (1 :: nat) \<le> 4096 \<and> (4096 :: nat) - 1 < 64 ^ num_chars_per_pixel 4096"
  using num_chars_per_pixel_width [of 4096 63 4096]
  by simp

subsection \<open>The palette\<close>

lemma upt_2: "[0..<2] = [0, 1]" by (simp add: upt_rec)

lemma count_colors_nonzero:
  assumes "count_colors sfc = (colors, ncols)"
  shows "{k. colors k \<noteq> 0} = set (pixel_keys sfc)"
  using count_inv [OF assms [unfolded count_colors_foldl]] by auto

lemma count_colors_card:
  assumes "count_colors sfc = (colors, ncols)"
  shows "ncols = card (set (pixel_keys sfc))"
  using count_inj(2) [OF assms [unfolded count_colors_foldl]] .

lemma ncols_le_pixels:
  assumes "count_colors sfc = (colors, ncols)"
  shows "ncols \<le> get_width sfc * get_height sfc"
  using card_length [of "pixel_keys sfc"]
  by (simp add: count_colors_card [OF assms] length_pixel_keys)

lemma ncols_le_max:
  assumes "count_colors sfc = (colors, ncols)"
  shows "ncols \<le> MAX_COL + 1"
proof -
  have "set (pixel_keys sfc) \<subseteq> {0..MAX_COL}"
    using pixel_keys_le by auto
  then have "card (set (pixel_keys sfc)) \<le> card {0..MAX_COL}"
    by (intro card_mono) simp_all
  then show ?thesis by (simp add: count_colors_card [OF assms])
qed

text \<open>
  C2.  After the counting pass the numbers given to the colours are exactly \<open>1..ncols\<close>,
  no number is given twice, the colours with a number are those of the image, a colour
  first met earlier in the row-major traversal has the smaller number, and \<open>ncols\<close> is at
  most the number of pixels and at most \<open>2 ^ 24 + 1\<close>.
\<close>

theorem palette_first_occurrence:
  assumes "count_colors sfc = (colors, ncols)"
  shows "colors ` {k. colors k \<noteq> 0} = {1..ncols} \<and>
         inj_on colors {k. colors k \<noteq> 0} \<and>
         {k. colors k \<noteq> 0} = set (pixel_keys sfc) \<and>
         (\<forall>a\<in>set (pixel_keys sfc). \<forall>b\<in>set (pixel_keys sfc).
            colors a < colors b \<longleftrightarrow> first_pos (pixel_keys sfc) a < first_pos (pixel_keys sfc) b) \<and>
         length (pixel_keys sfc) = get_width sfc * get_height sfc \<and>
         (\<forall>x<get_width sfc. \<forall>y<get_height sfc.
            pixel_keys sfc ! (y * get_width sfc + x) = count_color (get_argb24_pixel sfc x y)) \<and>
         ncols \<le> min (get_width sfc * get_height sfc) (2 ^ 24 + 1)"
proof -
  note f = assms [unfolded count_colors_foldl]
  have nz: "{k. colors k \<noteq> 0} = set (pixel_keys sfc)"
    by (rule count_colors_nonzero [OF assms])
  have "ncols \<le> 2 ^ 24 + 1"
    using ncols_le_max [OF assms] by (simp add: MAX_COL_def)
  then have "ncols \<le> min (get_width sfc * get_height sfc) (2 ^ 24 + 1)"
    using ncols_le_pixels [OF assms] by simp
  then show ?thesis
    unfolding nz using count_inv [OF f] count_inj(1) [OF f]
    by (simp add: length_pixel_keys nth_pixel_keys)
qed

lemma example_keys: "pixel_keys example_image = [0xff, MAX_COL, 0xff, 0xff0000]"
  by (simp add: pixel_keys_def example_image_def image_of_rows_def upt_2 count_color_def
      TRANS_THRESH_def)

lemma example_count: "count_colors example_image = (example_colors, 3)"
  unfolding count_colors_foldl example_keys example_colors_def
  by (simp add: count_key_def MAX_COL_def numeral_2_eq_2 numeral_3_eq_3)

theorem palette_first_occurrence_witness:
  "count_colors example_image = (example_colors, 3) \<and>
   example_colors ` {k. example_colors k \<noteq> 0} = {1..3} \<and>
   pixel_keys example_image = [0xff, MAX_COL, 0xff, 0xff0000] \<and>
   example_colors 0xff = 1 \<and> example_colors MAX_COL = 2 \<and> example_colors 0xff0000 = 3 \<and>
   first_pos (pixel_keys example_image) 0xff = 0 \<and>
   first_pos (pixel_keys example_image) MAX_COL = 1 \<and>
   first_pos (pixel_keys example_image) 0xff0000 = 3 \<and>
   (3::nat) \<le> min (get_width example_image * get_height example_image) (2 ^ 24 + 1)"
proof -
  note t = palette_first_occurrence [OF example_count]
  have fp: "first_pos (pixel_keys example_image) 0xff = 0"
    "first_pos (pixel_keys example_image) MAX_COL = 1"
    "first_pos (pixel_keys example_image) 0xff0000 = 3"
    by (simp_all add: example_keys first_pos_def MAX_COL_def)
  have c: "example_colors 0xff = 1" "example_colors MAX_COL = 2" "example_colors 0xff0000 = 3"
    by (simp_all add: example_colors_def MAX_COL_def)
  from t have img: "example_colors ` {k. example_colors k \<noteq> 0} = {1..3}"
    by (rule conjunct1)
  from t have bound:
    "(3::nat) \<le> min (get_width example_image * get_height example_image) (2 ^ 24 + 1)"
    by (elim conjE)
  show ?thesis
    by (intro conjI example_count img example_keys fp bound c)
qed

subsection \<open>The symbols of a pixel row\<close>

lemma length_col_encode_base64 [simp]: "length (col_encode_base64 pix cpp) = cpp"
  by (induction cpp) simp_all

lemma six_bits: "drop_bit (c * 6) (pix :: int) AND 0x3f = (pix div 64 ^ c) mod 64"
proof -
  have m: "(0x3f :: int) = mask 6" by (simp add: mask_eq_exp_minus_1)
  have "(2::int) ^ (6 * c) = (2 ^ 6) ^ c" by (rule power_mult)
  then have "(2::int) ^ (c * 6) = 64 ^ c" by (simp add: mult.commute)
  then show ?thesis unfolding m
    by (simp add: take_bit_eq_mask [symmetric] take_bit_eq_mod drop_bit_eq_div)
qed

lemma nth_col_encode_base64:
  "j < cpp \<Longrightarrow>
     col_encode_base64 pix cpp ! j = ctbl ! nat ((pix div 64 ^ (cpp - 1 - j)) mod 64)"
proof (induction cpp arbitrary: j)
  case 0 then show ?case by simp
next
  case (Suc cpp)
  show ?case
  proof (cases j)
    case 0 then show ?thesis by (simp add: six_bits)
  next
    case (Suc j')
    then show ?thesis using Suc.IH [of j'] Suc.prems by simp
  qed
qed

lemma length_pixel_symbols:
  "length (pixel_symbols sfc colors cpp y) = get_width sfc * cpp"
  by (simp add: pixel_symbols_def length_concat comp_def sum_list_triv)

lemma nth_pixel_symbols:
  assumes "x < get_width sfc" "j < cpp"
  shows "pixel_symbols sfc colors cpp y ! (x * cpp + j) =
     col_encode_base64 (int (colors (row_color (get_argb24_pixel sfc x y))) - 1) cpp ! j"
  unfolding pixel_symbols_def
  using assms by (subst nth_concat_rows [where w = cpp]) auto

lemma color_index_range:
  assumes "count_colors sfc = (colors, ncols)" "x < get_width sfc" "y < get_height sfc"
  shows "1 \<le> colors (count_color (get_argb24_pixel sfc x y))"
    "colors (count_color (get_argb24_pixel sfc x y)) \<le> ncols"
proof -
  have "count_color (get_argb24_pixel sfc x y) \<in> set (pixel_keys sfc)"
    using assms(2,3) by (auto simp add: set_pixel_keys)
  then have "colors (count_color (get_argb24_pixel sfc x y)) \<in> {1..ncols}"
    using count_inv [OF assms(1) [unfolded count_colors_foldl]] by blast
  then show "1 \<le> colors (count_color (get_argb24_pixel sfc x y))"
    "colors (count_color (get_argb24_pixel sfc x y)) \<le> ncols"
    by simp_all
qed

lemma ctbl_alphabet:
  "map of_char ctbl = [65..<91] @ [97..<123] @ [48..<58] @ [43, 47 :: nat]"
  by (simp add: ctbl_def upt_rec)

lemma ctbl_distinct: "distinct ctbl" "length ctbl = 64"
  by (simp_all add: ctbl_def)

subsection \<open>The colour table\<close>

lemma sorted_color_table_keys: "sorted_wrt (<) (color_table_keys colors)"
  unfolding color_table_keys_def by (rule sorted_wrt_filter) (rule sorted_wrt_upt)

lemma set_color_table_keys:
  "set (color_table_keys colors) = {i. i \<le> MAX_COL \<and> colors i \<noteq> 0}"
  by (auto simp add: color_table_keys_def simp del: upt_Suc)

lemma color_table_keys_count:
  assumes "count_colors sfc = (colors, ncols)"
  shows "set (color_table_keys colors) = set (pixel_keys sfc)"
    and "color_table_keys colors = sorted_list_of_set (set (pixel_keys sfc))"
    and "length (color_table_keys colors) = ncols"
proof -
  show s: "set (color_table_keys colors) = set (pixel_keys sfc)"
    using count_colors_nonzero [OF assms] pixel_keys_le [of _ sfc]
    by (auto simp add: set_color_table_keys)
  have d: "distinct (color_table_keys colors)" "sorted (color_table_keys colors)"
    using sorted_color_table_keys [of colors]
    by (simp_all add: strict_sorted_iff)
  then show "color_table_keys colors = sorted_list_of_set (set (pixel_keys sfc))"
    unfolding s [symmetric] by (simp add: sorted_list_of_set.idem_if_sorted_distinct)
  show "length (color_table_keys colors) = ncols"
    using d(1) s by (simp add: count_colors_card [OF assms] distinct_card [symmetric])
qed

lemma first_pos_sorted:
  assumes "sorted_wrt (<) (ks :: nat list)" "a \<in> set ks" "b \<in> set ks"
  shows "first_pos ks a < first_pos ks b \<longleftrightarrow> a < b"
proof -
  have d: "distinct ks" using assms(1) by (simp add: strict_sorted_iff)
  have s: "sorted ks" using assms(1) by (simp add: strict_sorted_iff)
  have n: "ks ! first_pos ks a = a" "ks ! first_pos ks b = b"
    "first_pos ks a < length ks" "first_pos ks b < length ks"
    using assms(2,3) by (simp_all add: nth_first_pos first_pos_less)
  show ?thesis
  proof
    assume "first_pos ks a < first_pos ks b"
    then have "ks ! first_pos ks a < ks ! first_pos ks b"
      using assms(1) n(4) by (simp add: sorted_wrt_nth_less)
    then show "a < b" by (simp add: n)
  next
    assume ab: "a < b"
    show "first_pos ks a < first_pos ks b"
    proof (rule ccontr)
      assume "\<not> first_pos ks a < first_pos ks b"
      then have "first_pos ks b \<le> first_pos ks a" by simp
      then have "ks ! first_pos ks b \<le> ks ! first_pos ks a"
        using s n(3) by (simp add: sorted_nth_mono)
      then show False using ab by (simp add: n)
    qed
  qed
qed

lemma last_sorted_max:
  assumes "sorted_wrt (<) (ks :: nat list)" "a \<in> set ks" "\<forall>k\<in>set ks. k \<le> a"
  shows "last ks = a"
proof -
  have ne: "ks \<noteq> []" using assms(2) by auto
  then have l: "last ks \<in> set ks" by simp
  obtain i where i: "i < length ks" "ks ! i = a"
    using assms(2) by (auto simp add: in_set_conv_nth)
  have "sorted ks" using assms(1) by (simp add: strict_sorted_iff)
  then have "ks ! i \<le> ks ! (length ks - 1)"
    using i(1) by (intro sorted_nth_mono) simp_all
  then have "a \<le> last ks" using ne by (simp add: i last_conv_nth)
  moreover have "last ks \<le> a" using assms(3) l by blast
  ultimately show ?thesis by simp
qed


subsection \<open>The writer\<close>

lemma color_line_text:
  "color_line colors cpp i = (if 5 < cpp + 1 then Overrun else Returns (color_text colors cpp i))"
  by (simp add: color_line_def color_text_def Let_def)

lemma color_table_foldl:
  "foldl (\<lambda>acc i. case acc of
                       Overrun \<Rightarrow> Overrun
                     | Returns ls \<Rightarrow>
                         (case color_line colors cpp i of
                            Overrun \<Rightarrow> Overrun
                          | Returns l \<Rightarrow> Returns (ls @ [l])))
           acc ks =
     (case acc of
        Overrun \<Rightarrow> Overrun
      | Returns ls \<Rightarrow>
          if 5 < cpp + 1 \<and> ks \<noteq> [] then Overrun
          else Returns (ls @ map (color_text colors cpp) ks))"
proof (induction ks arbitrary: acc)
  case Nil
  then show ?case by (simp split: outcome.splits)
next
  case (Cons k ks)
  show ?case
    by (cases acc) (simp_all add: Cons.IH color_line_text)
qed

lemma color_table_text:
  "color_table colors cpp =
     (if 5 < cpp + 1 \<and> color_table_keys colors \<noteq> [] then Overrun
      else Returns (map (color_text colors cpp) (color_table_keys colors)))"
  unfolding color_table_def color_table_foldl by simp

lemma xpm_document_text:
  assumes "count_colors sfc = (colors, ncols)"
  shows "xpm_document sfc =
     (if 5 < num_chars_per_pixel ncols + 1 \<and> color_table_keys colors \<noteq> [] then Overrun
      else Returns (xpm_header (get_width sfc) (get_height sfc) ncols (num_chars_per_pixel ncols)
                    @ concat (map (color_text colors (num_chars_per_pixel ncols))
                                  (color_table_keys colors))
                    @ concat (pixel_table sfc colors (num_chars_per_pixel ncols))
                    @ xpm_footer))"
  by (simp add: xpm_document_def assms Let_def color_table_text)

lemma xpm_document_returns:
  assumes "count_colors sfc = (colors, ncols)" and "xpm_document sfc = Returns doc"
  shows "doc = xpm_header (get_width sfc) (get_height sfc) ncols (num_chars_per_pixel ncols)
                    @ concat (map (color_text colors (num_chars_per_pixel ncols))
                                  (color_table_keys colors))
                    @ concat (pixel_table sfc colors (num_chars_per_pixel ncols))
                    @ xpm_footer"
  using assms(2) unfolding xpm_document_text [OF assms(1)]
  by (simp split: if_splits)

subsection \<open>The length of the document and the size estimate\<close>

lemma length_dec_le: "0 < k \<Longrightarrow> n < 10 ^ k \<Longrightarrow> length (dec n) \<le> k"
proof (induction k arbitrary: n)
  case 0 then show ?case by simp
next
  case (Suc k)
  show ?case
  proof (cases "n < 10")
    case True then show ?thesis by (subst dec.simps) simp
  next
    case False
    then have k: "0 < k" using Suc.prems by (cases k) simp_all
    have "n div 10 < 10 ^ k" using Suc.prems by (simp add: less_mult_imp_div_less mult.commute)
    from Suc.IH [OF k this] False show ?thesis by (subst dec.simps) simp
  qed
qed

lemma length_dec_pos: "0 < length (dec n)"
  by (subst dec.simps) simp

lemma length_xpm_header:
  "length (xpm_header w h ncols cpp) =
     41 + 2 * length (dec ncols) + length (dec w) + length (dec h) + length (dec cpp)"
  by (simp add: xpm_header_def)

lemma length_color_text:
  "length (color_text colors cpp i) = cpp + (if i < MAX_COL then 14 else 11)"
  by (simp add: color_text_def col_encode_html_def)

lemma length_pixel_line: "length (pixel_line sfc colors cpp y) = get_width sfc * cpp + 4"
  by (simp add: pixel_line_def length_pixel_symbols)

lemma length_pixel_table:
  "length (concat (pixel_table sfc colors cpp)) = (get_width sfc * cpp + 4) * get_height sfc"
  by (simp add: pixel_table_def length_concat comp_def length_pixel_line sum_list_triv)

lemma length_color_table_le:
  "length (concat (map (color_text colors cpp) ks)) \<le> (cpp + 14) * length ks"
  by (induction ks) (simp_all add: length_color_text)

lemma length_color_table_opaque:
  "\<forall>k\<in>set ks. k < MAX_COL \<Longrightarrow>
     length (concat (map (color_text colors cpp) ks)) = (cpp + 14) * length ks"
  by (induction ks) (simp_all add: length_color_text)

lemma length_xpm_document:
  assumes "count_colors sfc = (colors, ncols)" and "xpm_document sfc = Returns doc"
  shows "length doc =
     length (xpm_header (get_width sfc) (get_height sfc) ncols (num_chars_per_pixel ncols))
     + length (concat (map (color_text colors (num_chars_per_pixel ncols))
                           (color_table_keys colors)))
     + (get_width sfc * num_chars_per_pixel ncols + 4) * get_height sfc + 4"
  unfolding xpm_document_returns [OF assms]
  by (simp add: length_pixel_table xpm_footer_def)

lemma num_chars_le_5: "ncols \<le> MAX_COL + 1 \<Longrightarrow> num_chars_per_pixel ncols \<le> 5"
proof -
  assume "ncols \<le> MAX_COL + 1"
  then have "ncols < 2 ^ 25" by (simp add: MAX_COL_def)
  then have "bpc_loop 0 ncols \<le> 25" by (rule bpc_loop_least)
  then show ?thesis by (simp add: num_chars_ceil)
qed

text \<open>Where no product or sum of \<open>xpm_size\<close> leaves the range of \<^verbatim>\<open>int\<close>.\<close>

lemma xpm_size_exact:
  assumes "(cpp + 14) * ncols + (w * cpp + 4) * h + 256 < 2 ^ 31"
  shows "sint (xpm_size (word_of_nat w) (word_of_nat h) (word_of_nat ncols) (word_of_nat cpp)) =
     int ((cpp + 14) * ncols + (w * cpp + 4) * h + 256)"
proof -
  let ?n = "(cpp + 14) * ncols + (w * cpp + 4) * h + 256"
  have "xpm_size (word_of_nat w) (word_of_nat h) (word_of_nat ncols) (word_of_nat cpp) =
      (word_of_nat ?n :: 32 word)"
    by (simp add: xpm_size_def)
  moreover have "sint (word_of_nat ?n :: 32 word) = int ?n"
  proof -
    have "int ?n < int (2 ^ 31)" using assms by (simp only: of_nat_less_iff)
    then have "int ?n < 2 ^ 31" by simp
    moreover have "- (2 ^ 31) \<le> int ?n"
      by (rule order_trans [of _ 0]) simp_all
    ultimately have "signed_take_bit 31 (int ?n) = int ?n"
      by (intro signed_take_bit_int_eq_self)
    then show ?thesis by (simp only: signed_of_nat) simp
  qed
  ultimately show ?thesis by simp
qed

text \<open>The document with its final \<^verbatim>\<open>\0\<close> fits the estimate, when that is computed exactly.\<close>

lemma document_fits:
  assumes c: "count_colors sfc = (colors, ncols)" and d: "xpm_document sfc = Returns doc"
    and w: "get_width sfc < 2 ^ 31" and h: "get_height sfc < 2 ^ 31"
  shows "length doc + 1 \<le>
     (num_chars_per_pixel ncols + 14) * ncols
     + (get_width sfc * num_chars_per_pixel ncols + 4) * get_height sfc + 256"
proof -
  let ?cpp = "num_chars_per_pixel ncols"
  have n: "ncols \<le> MAX_COL + 1" by (rule ncols_le_max [OF c])
  have "length (dec ncols) \<le> 8"
    using n by (intro length_dec_le) (simp_all add: MAX_COL_def)
  moreover have "length (dec ?cpp) \<le> 1"
    using num_chars_le_5 [OF n] by (intro length_dec_le) simp_all
  moreover have "length (dec (get_width sfc)) \<le> 10"
    using w by (intro length_dec_le) simp_all
  moreover have "length (dec (get_height sfc)) \<le> 10"
    using h by (intro length_dec_le) simp_all
  ultimately have hd: "length (xpm_header (get_width sfc) (get_height sfc) ncols ?cpp) \<le> 78"
    by (simp add: length_xpm_header)
  have "length (concat (map (color_text colors ?cpp) (color_table_keys colors))) \<le> (?cpp + 14) * ncols"
    using length_color_table_le [of colors ?cpp "color_table_keys colors"]
      color_table_keys_count(3) [OF c] by simp
  with hd show ?thesis
    by (simp add: length_xpm_document [OF c d])
qed

text \<open>
  When the exact sum is below \<open>2 ^ 32\<close>, the \<^verbatim>\<open>int\<close> that \<open>xpm_size\<close> computes is that sum or
  it is negative.
\<close>

lemma xpm_size_wrapped:
  assumes "(cpp + 14) * ncols + (w * cpp + 4) * h + 256 < 2 ^ 32"
  shows "sint (xpm_size (word_of_nat w) (word_of_nat h) (word_of_nat ncols) (word_of_nat cpp)) < 0 \<or>
     sint (xpm_size (word_of_nat w) (word_of_nat h) (word_of_nat ncols) (word_of_nat cpp)) =
       int ((cpp + 14) * ncols + (w * cpp + 4) * h + 256)"
proof (cases "(cpp + 14) * ncols + (w * cpp + 4) * h + 256 < 2 ^ 31")
  case True
  then show ?thesis by (simp only: xpm_size_exact simp_thms)
next
  case False
  define n where "n = (cpp + 14) * ncols + (w * cpp + 4) * h + 256"
  have x: "xpm_size (word_of_nat w) (word_of_nat h) (word_of_nat ncols) (word_of_nat cpp) =
      (word_of_nat n :: 32 word)"
    unfolding n_def by (simp add: xpm_size_def)
  have "int (2 ^ 31) \<le> int n"
    using False unfolding n_def by (simp only: of_nat_le_iff not_less)
  then have ge: "2 ^ 31 \<le> int n" by simp
  have "int n < int (2 ^ 32)"
    using assms unfolding n_def by (simp only: of_nat_less_iff)
  then have lt: "int n < 4294967296" by simp
  have le: "signed_take_bit 31 (int n) \<le> int n - 4294967296"
    using signed_take_bit_int_less_eq [OF ge] by simp
  from lt le have neg: "signed_take_bit 31 (int n) < 0" by linarith
  have "sint (word_of_nat n :: 32 word) = signed_take_bit 31 (int n)"
    by (simp add: signed_of_nat)
  with neg have "sint (word_of_nat n :: 32 word) < 0" by (simp only:)
  then show ?thesis by (simp only: x simp_thms)
qed

text \<open>
  Cairo's image surfaces are at most 32767 pixels wide and high, and the accessor forms
  the byte offset \<open>y * stride\<close> as an \<^verbatim>\<open>int\<close>, with a stride of at least \<open>4 * W\<close>; for the
  images that can be read the sum of \<open>xpm_size\<close> is below \<open>2 ^ 32\<close>.
\<close>

lemma estimate_below_2_32:
  assumes w: "w \<le> 32767" and h: "h \<le> 32767"
    and off: "(h - 1) * (4 * w) < 2 ^ 31"
    and n: "ncols \<le> MAX_COL + 1" and c: "cpp \<le> 5"
  shows "(cpp + 14) * ncols + (w * cpp + 4) * h + 256 < 2 ^ 32"
proof -
  define P where "P = (h - 1) * (4 * w)"
  define Q where "Q = w * h"
  define A where "A = (cpp + 14) * ncols"
  define B where "B = (w * cpp + 4) * h"
  have p: "P < 2147483648" using off unfolding P_def by simp
  have q: "4 * Q \<le> P + 4 * w"
    unfolding P_def Q_def by (cases h) (simp_all add: algebra_simps)
  have "A \<le> 19 * (MAX_COL + 1)"
    unfolding A_def using n c by (intro mult_le_mono) simp_all
  then have a: "A \<le> 318767123" by (simp add: MAX_COL_def)
  have "w * cpp * h \<le> w * 5 * h"
    using c by (intro mult_le_mono) simp_all
  then have b: "B \<le> 5 * Q + 4 * h"
    unfolding B_def Q_def by (simp add: algebra_simps)
  from p q a b w h have "A + B + 256 < 4294967296" by linarith
  then show ?thesis unfolding A_def B_def by simp
qed

subsection \<open>The entry points\<close>

lemma encoded_argb32: "encoded_image e (argb32_surface img) = Some img"
  by (simp add: encoded_image_def argb32_surface_def)

lemma write_to_xpm_mem_success:
  assumes i: "encoded_image e sfc = Some img" and a: "calloc_ok e"
    and c: "count_colors img = (colors, ncols)"
    and d: "xpm_document img = Returns doc"
    and w: "get_width img < 2 ^ 31" and h: "get_height img < 2 ^ 31"
    and est: "(num_chars_per_pixel ncols + 14) * ncols
              + (get_width img * num_chars_per_pixel ncols + 4) * get_height img + 256 < 2 ^ 31"
    and m: "malloc_ok e ((num_chars_per_pixel ncols + 14) * ncols
              + (get_width img * num_chars_per_pixel ncols + 4) * get_height img + 256)"
  shows "cairo_image_surface_write_to_xpm_mem e sfc =
     Returns (CAIRO_STATUS_SUCCESS, Some doc, length doc)"
proof -
  define N where "N = (num_chars_per_pixel ncols + 14) * ncols
              + (get_width img * num_chars_per_pixel ncols + 4) * get_height img + 256"
  have x: "sint (xpm_size (word_of_nat (get_width img)) (word_of_nat (get_height img))
                   (word_of_nat ncols) (word_of_nat (num_chars_per_pixel ncols))) = int N"
    unfolding N_def by (rule xpm_size_exact [OF est])
  have f: "length doc + 1 \<le> N"
    unfolding N_def by (rule document_fits [OF c d w h])
  have m': "malloc_ok e N" using m by (simp only: N_def)
  show ?thesis
    using a m' f
    by (simp add: cairo_image_surface_write_to_xpm_mem_def i c d x Let_def)
qed

lemma write_to_xpm_mem_error:
  assumes "cairo_image_surface_write_to_xpm_mem e sfc = Returns (st, data, len)"
    and "st \<noteq> CAIRO_STATUS_SUCCESS"
  shows "data = None" and "len = 0"
  using assms
  by (auto simp add: cairo_image_surface_write_to_xpm_mem_def Let_def
      split: option.splits if_splits prod.splits outcome.splits)

lemma write_to_xpm_mem_data:
  assumes "cairo_image_surface_write_to_xpm_mem e sfc = Returns (CAIRO_STATUS_SUCCESS, data, len)"
  shows "\<exists>img doc. encoded_image e sfc = Some img \<and> xpm_document img = Returns doc \<and>
     data = Some doc \<and> len = length doc"
  using assms
  by (auto simp add: cairo_image_surface_write_to_xpm_mem_def Let_def
      split: option.splits if_splits prod.splits outcome.splits)

text \<open>The document that a successful call hands out.\<close>

lemma write_to_xpm_mem_document:
  assumes m: "cairo_image_surface_write_to_xpm_mem e sfc =
      Returns (CAIRO_STATUS_SUCCESS, data, len)"
    and i: "encoded_image e sfc = Some img"
    and c: "count_colors img = (colors, ncols)"
  shows "data = Some (xpm_header (get_width img) (get_height img) ncols (num_chars_per_pixel ncols)
                    @ concat (map (color_text colors (num_chars_per_pixel ncols))
                                  (color_table_keys colors))
                    @ concat (pixel_table img colors (num_chars_per_pixel ncols))
                    @ xpm_footer)"
    and "len = length (xpm_header (get_width img) (get_height img) ncols (num_chars_per_pixel ncols)
                    @ concat (map (color_text colors (num_chars_per_pixel ncols))
                                  (color_table_keys colors))
                    @ concat (pixel_table img colors (num_chars_per_pixel ncols))
                    @ xpm_footer)"
proof -
  from write_to_xpm_mem_data [OF m] i obtain doc
    where d: "xpm_document img = Returns doc" "data = Some doc" "len = length doc"
    by auto
  note r = xpm_document_returns [OF c d(1)]
  show "data = Some (xpm_header (get_width img) (get_height img) ncols (num_chars_per_pixel ncols)
                    @ concat (map (color_text colors (num_chars_per_pixel ncols))
                                  (color_table_keys colors))
                    @ concat (pixel_table img colors (num_chars_per_pixel ncols))
                    @ xpm_footer)"
    using d(2) r by simp
  show "len = length (xpm_header (get_width img) (get_height img) ncols (num_chars_per_pixel ncols)
                    @ concat (map (color_text colors (num_chars_per_pixel ncols))
                                  (color_table_keys colors))
                    @ concat (pixel_table img colors (num_chars_per_pixel ncols))
                    @ xpm_footer)"
    using d(3) r by simp
qed

text \<open>
  For an image of a size that Cairo accepts, whose rows the accessor can address, and
  with fewer than \<open>2 ^ 24\<close> colours the call never leaves a buffer: the estimate is exact,
  or it is negative and the call returns \<^verbatim>\<open>CAIRO_STATUS_NO_MEMORY\<close>.
\<close>

lemma write_to_xpm_mem_returns:
  assumes i: "encoded_image e sfc = Some img"
    and w: "get_width img \<le> 32767" and h: "get_height img \<le> 32767"
    and off: "(get_height img - 1) * (4 * get_width img) < 2 ^ 31"
    and c: "count_colors img = (colors, ncols)"
    and n: "ncols < 2 ^ 24"
  shows "cairo_image_surface_write_to_xpm_mem e sfc \<noteq> Overrun"
proof -
  define cpp where "cpp = num_chars_per_pixel ncols"
  define N where "N = (cpp + 14) * ncols + (get_width img * cpp + 4) * get_height img + 256"
  define s where "s = sint (xpm_size (word_of_nat (get_width img)) (word_of_nat (get_height img))
                   (word_of_nat ncols) (word_of_nat cpp))"
  have "bpc_loop 0 ncols \<le> 24" using n by (rule bpc_loop_least)
  then have cpp4: "cpp \<le> 4" unfolding cpp_def by (simp add: num_chars_ceil)
  then obtain doc where d: "xpm_document img = Returns doc"
    unfolding xpm_document_text [OF c] cpp_def by simp
  have nm: "ncols \<le> MAX_COL + 1" using n by (simp add: MAX_COL_def)
  have "N < 2 ^ 32"
    unfolding N_def using cpp4 by (intro estimate_below_2_32 [OF w h off nm]) simp
  then have "s < 0 \<or> s = int N"
    unfolding N_def s_def by (rule xpm_size_wrapped)
  moreover have "length doc + 1 \<le> N"
    unfolding N_def cpp_def using w h by (intro document_fits [OF c d]) simp_all
  ultimately have "s < 0 \<or> \<not> nat s < length doc + 1" by auto
  then show ?thesis
    unfolding cairo_image_surface_write_to_xpm_mem_def i
    by (auto simp add: c d Let_def s_def cpp_def)
qed

subsection \<open>The documents of the small images\<close>

lemma upt_1: "[0..<1] = [0]" by (simp add: upt_rec)

lemma upt_6: "[0..<6] = [0, 1, 2, 3, 4, 5]" by (simp add: upt_rec)

lemma num_chars_2: "num_chars_per_pixel 2 = 1"
  by (simp add: num_chars_per_pixel_def bpc_loop.simps)

lemma example_cpp: "num_chars_per_pixel 3 = 1"
  by (simp add: num_chars_per_pixel_def bpc_loop.simps)

lemma example_table_keys: "color_table_keys example_colors = [0xff, 0xff0000, MAX_COL]"
  unfolding color_table_keys_count(2) [OF example_count] example_keys
    sorted_list_of_set_sort_remdups
  by (simp add: MAX_COL_def)

lemma example_color_texts:
  "color_text example_colors 1 0xff = [CHR '','', nl, dq] @ ''A c #0000ff'' @ [dq]"
  "color_text example_colors 1 0xff0000 = [CHR '','', nl, dq] @ ''C c #ff0000'' @ [dq]"
  "color_text example_colors 1 MAX_COL = [CHR '','', nl, dq] @ ''B c None'' @ [dq]"
  by (simp_all add: color_text_def MAX_COL_def col_encode_html_def upt_6 hex_digit_def ctbl_def
      example_colors_def)

lemma example_pixel_table:
  "pixel_table example_image example_colors 1 =
     [[CHR '','', nl, dq] @ ''AB'' @ [dq], [CHR '','', nl, dq] @ ''AC'' @ [dq]]"
  by (simp add: pixel_table_def pixel_line_def pixel_symbols_def example_image_def
      image_of_rows_def upt_2 row_color_def TRANS_THRESH_def example_colors_def MAX_COL_def
      ctbl_def)

lemma example_header:
  "xpm_header 2 2 3 1 =
     ''/* XPM */'' @ [nl] @ ''static char *xpm_c3_[] = {'' @ [nl, dq] @ ''2 2 3 1'' @ [dq]"
  by (simp add: xpm_header_def dec.simps dec_digit_def)

lemma example_size: "get_width example_image = 2" "get_height example_image = 2"
  by (simp_all add: example_image_def image_of_rows_def)

lemma example_document_eq: "xpm_document example_image = Returns example_document"
  unfolding xpm_document_text [OF example_count] example_cpp example_size example_table_keys
  by (simp add: example_color_texts example_pixel_table example_header xpm_footer_def
      example_document_def del: One_nat_def)

lemma example_document_length: "length example_document = 104"
  by (simp add: example_document_def)

lemma example_mem:
  "cairo_image_surface_write_to_xpm_mem generous_env (argb32_surface example_image) =
     Returns (CAIRO_STATUS_SUCCESS, Some example_document, 104)"
  unfolding example_document_length [symmetric]
  by (rule write_to_xpm_mem_success [OF encoded_argb32 _ example_count example_document_eq])
    (simp_all add: generous_env_def example_size example_cpp)

lemma example_mem_error:
  "cairo_image_surface_write_to_xpm_mem no_table_env (argb32_surface example_image) =
     Returns (CAIRO_STATUS_NO_MEMORY, None, 0)"
  by (simp add: cairo_image_surface_write_to_xpm_mem_def encoded_argb32 no_table_env_def)

lemma swapped_keys: "pixel_keys swapped_image = [0xff, 1]"
  by (simp add: pixel_keys_def swapped_image_def image_of_rows_def upt_1 upt_2
      count_color_def TRANS_THRESH_def)

lemma swapped_count: "count_colors swapped_image = (swapped_colors, 2)"
  unfolding count_colors_foldl swapped_keys swapped_colors_def
  by (simp add: count_key_def numeral_2_eq_2)

lemma swapped_table_keys: "color_table_keys swapped_colors = [1, 0xff]"
  unfolding color_table_keys_count(2) [OF swapped_count] swapped_keys
  by (simp add: sorted_list_of_set_sort_remdups)

lemma swapped_color_texts:
  "color_text swapped_colors 1 1 = [CHR '','', nl, dq] @ ''B c #000001'' @ [dq]"
  "color_text swapped_colors 1 0xff = [CHR '','', nl, dq] @ ''A c #0000ff'' @ [dq]"
  by (simp_all add: color_text_def MAX_COL_def col_encode_html_def upt_6 hex_digit_def ctbl_def
      swapped_colors_def)

lemma swapped_pixel_table:
  "pixel_table swapped_image swapped_colors 1 = [[CHR '','', nl, dq] @ ''AB'' @ [dq]]"
  by (simp add: pixel_table_def pixel_line_def pixel_symbols_def swapped_image_def
      image_of_rows_def upt_1 upt_2 row_color_def TRANS_THRESH_def swapped_colors_def ctbl_def)

lemma header_2_1_2_1:
  "xpm_header 2 1 2 1 =
     ''/* XPM */'' @ [nl] @ ''static char *xpm_c2_[] = {'' @ [nl, dq] @ ''2 1 2 1'' @ [dq]"
  by (simp add: xpm_header_def dec.simps dec_digit_def)

lemma swapped_size: "get_width swapped_image = 2" "get_height swapped_image = 1"
  by (simp_all add: swapped_image_def image_of_rows_def)

lemma swapped_document_eq: "xpm_document swapped_image = Returns swapped_document"
  unfolding xpm_document_text [OF swapped_count] num_chars_2 swapped_size swapped_table_keys
  by (simp add: swapped_color_texts swapped_pixel_table header_2_1_2_1 xpm_footer_def
      swapped_document_def del: One_nat_def)

lemma swapped_document_length: "length swapped_document = 86"
  by (simp add: swapped_document_def)

lemma swapped_mem:
  "cairo_image_surface_write_to_xpm_mem generous_env (argb32_surface swapped_image) =
     Returns (CAIRO_STATUS_SUCCESS, Some swapped_document, 86)"
  unfolding swapped_document_length [symmetric]
  by (rule write_to_xpm_mem_success [OF encoded_argb32 _ swapped_count swapped_document_eq])
    (simp_all add: generous_env_def swapped_size num_chars_2)

lemma transparent_first_keys: "pixel_keys transparent_first_image = [MAX_COL, 0xff]"
  by (simp add: pixel_keys_def transparent_first_image_def image_of_rows_def upt_1 upt_2
      count_color_def TRANS_THRESH_def)

lemma transparent_first_count:
  "count_colors transparent_first_image = (transparent_first_colors, 2)"
  unfolding count_colors_foldl transparent_first_keys transparent_first_colors_def
  by (simp add: count_key_def MAX_COL_def numeral_2_eq_2)

lemma transparent_first_sorted:
  "sorted_list_of_set (set (pixel_keys transparent_first_image)) = [0xff, MAX_COL]"
  unfolding transparent_first_keys
  by (simp add: sorted_list_of_set_sort_remdups MAX_COL_def)

lemma transparent_first_table_keys: "color_table_keys transparent_first_colors = [0xff, MAX_COL]"
  unfolding color_table_keys_count(2) [OF transparent_first_count]
  by (rule transparent_first_sorted)

lemma transparent_first_color_texts:
  "color_text transparent_first_colors 1 0xff = [CHR '','', nl, dq] @ ''B c #0000ff'' @ [dq]"
  "color_text transparent_first_colors 1 MAX_COL = [CHR '','', nl, dq] @ ''A c None'' @ [dq]"
  by (simp_all add: color_text_def MAX_COL_def col_encode_html_def upt_6 hex_digit_def ctbl_def
      transparent_first_colors_def)

lemma transparent_first_pixel_table:
  "pixel_table transparent_first_image transparent_first_colors 1 =
     [[CHR '','', nl, dq] @ ''AB'' @ [dq]]"
  by (simp add: pixel_table_def pixel_line_def pixel_symbols_def transparent_first_image_def
      image_of_rows_def upt_1 upt_2 row_color_def TRANS_THRESH_def transparent_first_colors_def
      MAX_COL_def ctbl_def)

lemma transparent_first_size:
  "get_width transparent_first_image = 2" "get_height transparent_first_image = 1"
  by (simp_all add: transparent_first_image_def image_of_rows_def)

lemma transparent_first_document_eq:
  "xpm_document transparent_first_image = Returns transparent_first_document"
  unfolding xpm_document_text [OF transparent_first_count] num_chars_2 transparent_first_size
    transparent_first_table_keys
  by (simp add: transparent_first_color_texts transparent_first_pixel_table header_2_1_2_1
      xpm_footer_def transparent_first_document_def del: One_nat_def)

lemma transparent_first_document_length: "length transparent_first_document = 83"
  by (simp add: transparent_first_document_def)

lemma transparent_first_mem:
  "cairo_image_surface_write_to_xpm_mem generous_env (argb32_surface transparent_first_image) =
     Returns (CAIRO_STATUS_SUCCESS, Some transparent_first_document, 83)"
  unfolding transparent_first_document_length [symmetric]
  by (rule write_to_xpm_mem_success
      [OF encoded_argb32 _ transparent_first_count transparent_first_document_eq])
    (simp_all add: generous_env_def transparent_first_size num_chars_2)

subsection \<open>The pixel rows of the document\<close>

lemma pixel_table_lines:
  "pixel_table sfc colors cpp =
     map (\<lambda>y. [CHR '','', nl, dq] @ pixel_symbols sfc colors cpp y @ [dq]) [0..<get_height sfc]"
  by (simp add: pixel_table_def pixel_line_def)

text \<open>
  C4.  The document that a successful call hands out is the header, the colour lines,
  one line for every row \<open>y\<close> of the image and the closing line.  The text of row \<open>y\<close>
  between its quotes has \<open>W * cpp\<close> characters; for the pixel at \<open>x\<close> the characters
  \<open>x * cpp .. x * cpp + cpp - 1\<close> are the base-64 digits, most significant first, of the
  number of its colour less one, written with the alphabet \<open>ctbl\<close> (\<open>A\<close>--\<open>Z\<close>, \<open>a\<close>--\<open>z\<close>,
  \<open>0\<close>--\<open>9\<close>, \<open>+\<close>, \<open>/\<close>); that number is at least 0 and below \<open>64 ^ cpp\<close>.
\<close>

theorem pixel_row_symbols:
  assumes "cairo_image_surface_write_to_xpm_mem e sfc = Returns (CAIRO_STATUS_SUCCESS, data, len)"
    and "encoded_image e sfc = Some img"
    and "count_colors img = (colors, ncols)"
    and "cpp = num_chars_per_pixel ncols"
  shows "data = Some (xpm_header (get_width img) (get_height img) ncols cpp
                      @ concat (map (color_text colors cpp) (color_table_keys colors))
                      @ concat (map (\<lambda>y. [CHR '','', nl, dq] @ pixel_symbols img colors cpp y @ [dq])
                                    [0..<get_height img])
                      @ [nl] @ ''};'' @ [nl]) \<and>
         (\<forall>y<get_height img.
            length (pixel_symbols img colors cpp y) = get_width img * cpp \<and>
            (\<forall>x<get_width img.
               0 \<le> int (colors (count_color (get_argb24_pixel img x y))) - 1 \<and>
               int (colors (count_color (get_argb24_pixel img x y))) - 1 < 64 ^ cpp \<and>
               (\<forall>j<cpp. pixel_symbols img colors cpp y ! (x * cpp + j) =
                  ctbl ! nat (((int (colors (count_color (get_argb24_pixel img x y))) - 1)
                                 div 64 ^ (cpp - 1 - j)) mod 64)))) \<and>
         map of_char ctbl = [65..<91] @ [97..<123] @ [48..<58] @ [43, 47 :: nat]"
proof -
  have doc: "data = Some (xpm_header (get_width img) (get_height img) ncols cpp
                      @ concat (map (color_text colors cpp) (color_table_keys colors))
                      @ concat (map (\<lambda>y. [CHR '','', nl, dq] @ pixel_symbols img colors cpp y @ [dq])
                                    [0..<get_height img])
                      @ [nl] @ ''};'' @ [nl])"
    using write_to_xpm_mem_document(1) [OF assms(1-3)]
    by (simp add: assms(4) pixel_table_lines xpm_footer_def)
  have px: "0 \<le> int (colors (count_color (get_argb24_pixel img x y))) - 1 \<and>
            int (colors (count_color (get_argb24_pixel img x y))) - 1 < 64 ^ cpp \<and>
            (\<forall>j<cpp. pixel_symbols img colors cpp y ! (x * cpp + j) =
               ctbl ! nat (((int (colors (count_color (get_argb24_pixel img x y))) - 1)
                              div 64 ^ (cpp - 1 - j)) mod 64))"
    if x: "x < get_width img" and y: "y < get_height img" for x y
  proof -
    let ?n = "colors (count_color (get_argb24_pixel img x y))"
    from color_index_range [OF assms(3) x y] have r: "1 \<le> ?n" "?n \<le> ncols" .
    have "ncols < 64 ^ cpp"
      unfolding assms(4) by (rule num_chars_capacity)
    with r(2) have "?n < 64 ^ cpp"
      by (rule le_less_trans)
    then have "int ?n < 64 ^ cpp"
      by (metis of_nat_less_iff of_nat_numeral of_nat_power)
    then have b: "0 \<le> int ?n - 1" "int ?n - 1 < 64 ^ cpp" using r(1) by linarith+
    have "pixel_symbols img colors cpp y ! (x * cpp + j) =
               ctbl ! nat (((int ?n - 1) div 64 ^ (cpp - 1 - j)) mod 64)" if "j < cpp" for j
      using nth_pixel_symbols [OF x that, of colors y] nth_col_encode_base64 [OF that]
      by (simp add: row_color_eq)
    with b show ?thesis by blast
  qed
  from doc px ctbl_alphabet length_pixel_symbols show ?thesis by blast
qed

theorem pixel_row_symbols_witness:
  "cairo_image_surface_write_to_xpm_mem generous_env (argb32_surface example_image) =
     Returns (CAIRO_STATUS_SUCCESS, Some example_document, 104) \<and>
   encoded_image generous_env (argb32_surface example_image) = Some example_image \<and>
   count_colors example_image = (example_colors, 3) \<and>
   1 = num_chars_per_pixel 3 \<and>
   1 < get_height example_image \<and>
   pixel_symbols example_image example_colors 1 1 = ''AC'' \<and>
   length (pixel_symbols example_image example_colors 1 1) = get_width example_image * 1 \<and>
   Some example_document =
     Some (xpm_header (get_width example_image) (get_height example_image) 3 1
           @ concat (map (color_text example_colors 1) (color_table_keys example_colors))
           @ concat (map (\<lambda>y. [CHR '','', nl, dq] @ pixel_symbols example_image example_colors 1 y @ [dq])
                         [0..<get_height example_image])
           @ [nl] @ ''};'' @ [nl])"
proof -
  have h: "1 < get_height example_image"
    by (simp add: example_size)
  have r: "pixel_symbols example_image example_colors 1 1 = ''AC''"
    by (simp add: pixel_symbols_def example_image_def image_of_rows_def upt_2 row_color_def
        TRANS_THRESH_def example_colors_def MAX_COL_def ctbl_def)
  note t = pixel_row_symbols [OF example_mem encoded_argb32 example_count example_cpp [symmetric]]
  from t have a: "Some example_document =
     Some (xpm_header (get_width example_image) (get_height example_image) 3 1
           @ concat (map (color_text example_colors 1) (color_table_keys example_colors))
           @ concat (map (\<lambda>y. [CHR '','', nl, dq] @ pixel_symbols example_image example_colors 1 y @ [dq])
                         [0..<get_height example_image])
           @ [nl] @ ''};'' @ [nl])"
    by (rule conjunct1)
  note q = t [THEN conjunct2, THEN conjunct1, rule_format, OF h]
  from q have b: "length (pixel_symbols example_image example_colors 1 1) =
      get_width example_image * 1"
    by (rule conjunct1)
  show ?thesis
    by (intro conjI example_mem encoded_argb32 example_count example_cpp [symmetric] h r b a)
qed

subsection \<open>The colour lines of the document\<close>

lemma color_text_lines:
  "map (color_text colors cpp) ks =
     map (\<lambda>k. [CHR '','', nl, dq] @ col_encode_base64 (int (colors k) - 1) cpp
               @ (if k < MAX_COL then '' c #'' @ col_encode_html k else '' c None'') @ [dq]) ks"
  by (simp add: color_text_def)

lemma last_color_key:
  assumes "count_colors sfc = (colors, ncols)" "MAX_COL \<in> set (pixel_keys sfc)"
  shows "last (color_table_keys colors) = MAX_COL"
proof -
  note s = color_table_keys_count [OF assms(1)]
  have in_keys: "MAX_COL \<in> set (color_table_keys colors)" using assms(2) s(1) by simp
  have le: "\<forall>k\<in>set (color_table_keys colors). k \<le> MAX_COL"
    by (simp add: set_color_table_keys)
  show ?thesis
    by (rule last_sorted_max [OF sorted_color_table_keys in_keys le])
qed

text \<open>
  C10.  In the document that a successful call hands out, the colour table has one line
  for every colour of the image, in ascending order of the colour value.  The line of a
  24-bit colour shows its value in hexadecimal; only the largest key, \<open>MAX_COL\<close>, the
  transparent colour, gives a line \<open>c None\<close>, and when the image has a pixel below the
  threshold that line is the last of the table.
\<close>

theorem color_table_ascending_colors:
  assumes "cairo_image_surface_write_to_xpm_mem e sfc = Returns (CAIRO_STATUS_SUCCESS, data, len)"
    and "encoded_image e sfc = Some img"
    and "count_colors img = (colors, ncols)"
    and "cpp = num_chars_per_pixel ncols"
  shows "data = Some (xpm_header (get_width img) (get_height img) ncols cpp
                      @ concat (map (\<lambda>k. [CHR '','', nl, dq]
                                          @ col_encode_base64 (int (colors k) - 1) cpp
                                          @ (if k < MAX_COL then '' c #'' @ col_encode_html k
                                             else '' c None'')
                                          @ [dq])
                                    (sorted_list_of_set (set (pixel_keys img))))
                      @ concat (pixel_table img colors cpp)
                      @ xpm_footer) \<and>
         length (sorted_list_of_set (set (pixel_keys img))) = ncols \<and>
         sorted_wrt (<) (sorted_list_of_set (set (pixel_keys img))) \<and>
         (\<forall>k\<in>set (pixel_keys img). k \<le> MAX_COL) \<and>
         (MAX_COL \<in> set (pixel_keys img) \<longrightarrow>
            last (sorted_list_of_set (set (pixel_keys img))) = MAX_COL)"
proof -
  note k = color_table_keys_count [OF assms(3)]
  have doc: "data = Some (xpm_header (get_width img) (get_height img) ncols cpp
                      @ concat (map (\<lambda>k. [CHR '','', nl, dq]
                                          @ col_encode_base64 (int (colors k) - 1) cpp
                                          @ (if k < MAX_COL then '' c #'' @ col_encode_html k
                                             else '' c None'')
                                          @ [dq])
                                    (sorted_list_of_set (set (pixel_keys img))))
                      @ concat (pixel_table img colors cpp)
                      @ xpm_footer)"
    using write_to_xpm_mem_document(1) [OF assms(1-3)]
    unfolding color_text_lines k(2) assms(4) .
  have l: "length (sorted_list_of_set (set (pixel_keys img))) = ncols"
    using k(3) unfolding k(2) .
  have s: "sorted_wrt (<) (sorted_list_of_set (set (pixel_keys img)))"
    using sorted_color_table_keys [of colors] unfolding k(2) .
  have m: "\<forall>k\<in>set (pixel_keys img). k \<le> MAX_COL"
    using pixel_keys_le by blast
  have la: "last (sorted_list_of_set (set (pixel_keys img))) = MAX_COL"
    if "MAX_COL \<in> set (pixel_keys img)"
    using last_color_key [OF assms(3) that] unfolding k(2) .
  from doc l s m la show ?thesis by blast
qed

theorem color_table_ascending_colors_witness:
  "cairo_image_surface_write_to_xpm_mem generous_env (argb32_surface transparent_first_image) =
     Returns (CAIRO_STATUS_SUCCESS, Some transparent_first_document, 83) \<and>
   encoded_image generous_env (argb32_surface transparent_first_image) =
     Some transparent_first_image \<and>
   count_colors transparent_first_image = (transparent_first_colors, 2) \<and>
   1 = num_chars_per_pixel 2 \<and>
   pixel_keys transparent_first_image = [MAX_COL, 0xff] \<and>
   MAX_COL \<in> set (pixel_keys transparent_first_image) \<and>
   sorted_list_of_set (set (pixel_keys transparent_first_image)) = [0xff, MAX_COL] \<and>
   last (sorted_list_of_set (set (pixel_keys transparent_first_image))) = MAX_COL \<and>
   transparent_first_document =
     ''/* XPM */'' @ [nl] @ ''static char *xpm_c2_[] = {'' @ [nl, dq] @ ''2 1 2 1'' @ [dq]
     @ [CHR '','', nl, dq] @ ''B c #0000ff'' @ [dq]
     @ [CHR '','', nl, dq] @ ''A c None'' @ [dq]
     @ [CHR '','', nl, dq] @ ''AB'' @ [dq]
     @ [nl] @ ''};'' @ [nl]"
proof -
  have m: "MAX_COL \<in> set (pixel_keys transparent_first_image)"
    by (simp add: transparent_first_keys)
  note t = color_table_ascending_colors
    [OF transparent_first_mem encoded_argb32 transparent_first_count num_chars_2 [symmetric]]
  from t m have l: "last (sorted_list_of_set (set (pixel_keys transparent_first_image))) = MAX_COL"
    by (elim conjE impE)
  show ?thesis
    by (intro conjI transparent_first_mem encoded_argb32 transparent_first_count
        num_chars_2 [symmetric] transparent_first_keys m transparent_first_sorted l
        transparent_first_document_def)
qed

text \<open>
  C6, as the code has it.  In the document that a successful call hands out, the colour
  table has one line for every \<open>i\<close> from 0 to \<open>MAX_COL\<close> with \<open>colors[i] \<noteq> 0\<close>, in this order,
  \<open>ncols\<close> lines in all; the line of a colour starts with the symbols of its number less
  one.  The line of a colour \<open>a\<close> of the image stands before the line of a colour \<open>b\<close>
  exactly when \<open>a < b\<close>: the order of the lines is that of the colour values, whatever
  numbers the colours have.
\<close>

theorem color_table_line_order:
  assumes "cairo_image_surface_write_to_xpm_mem e sfc = Returns (CAIRO_STATUS_SUCCESS, data, len)"
    and "encoded_image e sfc = Some img"
    and "count_colors img = (colors, ncols)"
    and "cpp = num_chars_per_pixel ncols"
  shows "data = Some (xpm_header (get_width img) (get_height img) ncols cpp
                      @ concat (map (\<lambda>k. [CHR '','', nl, dq]
                                          @ col_encode_base64 (int (colors k) - 1) cpp
                                          @ (if k < MAX_COL then '' c #'' @ col_encode_html k
                                             else '' c None'')
                                          @ [dq])
                                    (color_table_keys colors))
                      @ concat (pixel_table img colors cpp)
                      @ xpm_footer) \<and>
         length (color_table_keys colors) = ncols \<and>
         set (color_table_keys colors) = set (pixel_keys img) \<and>
         (\<forall>a\<in>set (pixel_keys img).
            first_pos (color_table_keys colors) a < ncols \<and>
            color_table_keys colors ! first_pos (color_table_keys colors) a = a \<and>
            (\<forall>b\<in>set (pixel_keys img).
               first_pos (color_table_keys colors) a < first_pos (color_table_keys colors) b
                 \<longleftrightarrow> a < b))"
proof -
  note k = color_table_keys_count [OF assms(3)]
  have doc: "data = Some (xpm_header (get_width img) (get_height img) ncols cpp
                      @ concat (map (\<lambda>k. [CHR '','', nl, dq]
                                          @ col_encode_base64 (int (colors k) - 1) cpp
                                          @ (if k < MAX_COL then '' c #'' @ col_encode_html k
                                             else '' c None'')
                                          @ [dq])
                                    (color_table_keys colors))
                      @ concat (pixel_table img colors cpp)
                      @ xpm_footer)"
    using write_to_xpm_mem_document(1) [OF assms(1-3)]
    unfolding color_text_lines assms(4) .
  have pos: "first_pos (color_table_keys colors) a < ncols \<and>
            color_table_keys colors ! first_pos (color_table_keys colors) a = a \<and>
            (\<forall>b\<in>set (pixel_keys img).
               first_pos (color_table_keys colors) a < first_pos (color_table_keys colors) b
                 \<longleftrightarrow> a < b)"
    if a: "a \<in> set (pixel_keys img)" for a
  proof -
    have a': "a \<in> set (color_table_keys colors)" using a k(1) by simp
    have "first_pos (color_table_keys colors) a < ncols"
      using first_pos_less [OF a'] k(3) by simp
    moreover have "color_table_keys colors ! first_pos (color_table_keys colors) a = a"
      by (rule nth_first_pos [OF a'])
    moreover have "first_pos (color_table_keys colors) a < first_pos (color_table_keys colors) b
                 \<longleftrightarrow> a < b" if "b \<in> set (pixel_keys img)" for b
      using that k(1) a' by (intro first_pos_sorted sorted_color_table_keys) simp_all
    ultimately show ?thesis by blast
  qed
  from doc k(3) k(1) pos show ?thesis by blast
qed

theorem color_table_index_order_counterexample:
  "count_colors swapped_image = (swapped_colors, 2) \<and>
   swapped_colors 0xff = 1 \<and> swapped_colors 1 = 2 \<and>
   num_chars_per_pixel 2 = 1 \<and>
   col_encode_base64 0 1 = ''A'' \<and> col_encode_base64 1 1 = ''B'' \<and>
   cairo_image_surface_write_to_xpm_mem generous_env (argb32_surface swapped_image) =
     Returns (CAIRO_STATUS_SUCCESS,
       Some (''/* XPM */'' @ [nl] @ ''static char *xpm_c2_[] = {'' @ [nl, dq] @ ''2 1 2 1'' @ [dq]
             @ [CHR '','', nl, dq] @ ''B c #000001'' @ [dq]
             @ [CHR '','', nl, dq] @ ''A c #0000ff'' @ [dq]
             @ [CHR '','', nl, dq] @ ''AB'' @ [dq]
             @ [nl] @ ''};'' @ [nl]), 86)"
proof -
  have e: "col_encode_base64 0 1 = ''A''" "col_encode_base64 1 1 = ''B''"
    by (simp_all add: ctbl_def)
  have c: "swapped_colors 0xff = 1" "swapped_colors 1 = 2"
    by (simp_all add: swapped_colors_def)
  show ?thesis
    by (intro conjI swapped_count c num_chars_2 e swapped_mem [unfolded swapped_document_def])
qed

theorem color_table_line_order_witness:
  "cairo_image_surface_write_to_xpm_mem generous_env (argb32_surface swapped_image) =
     Returns (CAIRO_STATUS_SUCCESS, Some swapped_document, 86) \<and>
   encoded_image generous_env (argb32_surface swapped_image) = Some swapped_image \<and>
   count_colors swapped_image = (swapped_colors, 2) \<and>
   1 = num_chars_per_pixel 2 \<and>
   1 \<in> set (pixel_keys swapped_image) \<and> 0xff \<in> set (pixel_keys swapped_image) \<and>
   color_table_keys swapped_colors = [1, 0xff] \<and>
   first_pos (color_table_keys swapped_colors) 1
     < first_pos (color_table_keys swapped_colors) 0xff \<and>
   swapped_colors 0xff < swapped_colors 1"
proof -
  have m: "1 \<in> set (pixel_keys swapped_image)" "0xff \<in> set (pixel_keys swapped_image)"
    by (simp_all add: swapped_keys)
  note t = color_table_line_order
    [OF swapped_mem encoded_argb32 swapped_count num_chars_2 [symmetric]]
  note q = t [THEN conjunct2, THEN conjunct2, THEN conjunct2, rule_format, OF m(1),
    THEN conjunct2, THEN conjunct2, rule_format, OF m(2)]
  from q have o: "first_pos (color_table_keys swapped_colors) 1
     < first_pos (color_table_keys swapped_colors) 0xff"
    by simp
  have c: "swapped_colors 0xff < swapped_colors 1"
    by (simp add: swapped_colors_def)
  show ?thesis
    by (intro conjI swapped_mem encoded_argb32 swapped_count num_chars_2 [symmetric] m
        swapped_table_keys o c)
qed

subsection \<open>Errors and the callback\<close>

text \<open>
  C9.  When \<open>cairo_image_surface_write_to_xpm_mem\<close> returns a status other than success,
  the data pointer is \<^verbatim>\<open>NULL\<close> and the length 0.  \<open>cairo_image_surface_write_to_xpm_stream\<close>
  calls \<^verbatim>\<open>write_func\<close> at most once, with the complete document of the encoded surface and
  its length; when the encoding returns an error it returns that error and calls nothing.
\<close>

theorem no_partial_output:
  "(cairo_image_surface_write_to_xpm_mem e sfc = Returns (st, data, len) \<and>
      st \<noteq> CAIRO_STATUS_SUCCESS \<longrightarrow>
        data = None \<and> len = 0 \<and>
        cairo_image_surface_write_to_xpm_stream e sfc write_func = Returns (st, [])) \<and>
   (cairo_image_surface_write_to_xpm_stream e sfc write_func = Returns (st', calls) \<longrightarrow>
      length calls \<le> 1 \<and>
      (\<forall>d l. (d, l) \<in> set calls \<longrightarrow>
         cairo_image_surface_write_to_xpm_mem e sfc = Returns (CAIRO_STATUS_SUCCESS, d, l) \<and>
         st' = write_func d l \<and>
         (\<exists>img doc. encoded_image e sfc = Some img \<and> xpm_document img = Returns doc \<and>
            d = Some doc \<and> l = length doc)))"
proof (intro conjI impI)
  assume a: "cairo_image_surface_write_to_xpm_mem e sfc = Returns (st, data, len) \<and>
      st \<noteq> CAIRO_STATUS_SUCCESS"
  then show "data = None" "len = 0"
    using write_to_xpm_mem_error [of e sfc st data len] by simp_all
  from a show "cairo_image_surface_write_to_xpm_stream e sfc write_func = Returns (st, [])"
    by (simp add: cairo_image_surface_write_to_xpm_stream_def)
next
  assume s: "cairo_image_surface_write_to_xpm_stream e sfc write_func = Returns (st', calls)"
  then obtain st data len where m: "cairo_image_surface_write_to_xpm_mem e sfc = Returns (st, data, len)"
    by (auto simp add: cairo_image_surface_write_to_xpm_stream_def split: outcome.splits)
  show "length calls \<le> 1"
    using s by (auto simp add: cairo_image_surface_write_to_xpm_stream_def m split: if_splits)
  show "\<forall>d l. (d, l) \<in> set calls \<longrightarrow>
         cairo_image_surface_write_to_xpm_mem e sfc = Returns (CAIRO_STATUS_SUCCESS, d, l) \<and>
         st' = write_func d l \<and>
         (\<exists>img doc. encoded_image e sfc = Some img \<and> xpm_document img = Returns doc \<and>
            d = Some doc \<and> l = length doc)"
  proof (intro allI impI)
    fix d l assume "(d, l) \<in> set calls"
    with s m have "st = CAIRO_STATUS_SUCCESS" "d = data" "l = len" "st' = write_func d l"
      by (auto simp add: cairo_image_surface_write_to_xpm_stream_def split: if_splits)
    with m write_to_xpm_mem_data [of e sfc d l]
    show "cairo_image_surface_write_to_xpm_mem e sfc = Returns (CAIRO_STATUS_SUCCESS, d, l) \<and>
         st' = write_func d l \<and>
         (\<exists>img doc. encoded_image e sfc = Some img \<and> xpm_document img = Returns doc \<and>
            d = Some doc \<and> l = length doc)"
      by simp
  qed
qed


theorem no_partial_output_witness:
  "cairo_image_surface_write_to_xpm_mem no_table_env (argb32_surface example_image) =
     Returns (CAIRO_STATUS_NO_MEMORY, None, 0) \<and>
   CAIRO_STATUS_NO_MEMORY \<noteq> CAIRO_STATUS_SUCCESS \<and>
   cairo_image_surface_write_to_xpm_stream no_table_env (argb32_surface example_image)
     (\<lambda>data len. CAIRO_STATUS_SUCCESS) = Returns (CAIRO_STATUS_NO_MEMORY, []) \<and>
   cairo_image_surface_write_to_xpm_stream generous_env (argb32_surface example_image)
     (\<lambda>data len. CAIRO_STATUS_WRITE_ERROR) =
     Returns (CAIRO_STATUS_WRITE_ERROR, [(Some example_document, 104)]) \<and>
   length [(Some example_document, 104 :: nat)] \<le> 1 \<and>
   cairo_image_surface_write_to_xpm_mem generous_env (argb32_surface example_image) =
     Returns (CAIRO_STATUS_SUCCESS, Some example_document, 104)"
proof -
  have ne: "CAIRO_STATUS_NO_MEMORY \<noteq> CAIRO_STATUS_SUCCESS" by simp
  from no_partial_output [of no_table_env "argb32_surface example_image"
      CAIRO_STATUS_NO_MEMORY None 0 "\<lambda>data len. CAIRO_STATUS_SUCCESS"]
    example_mem_error ne
  have a: "cairo_image_surface_write_to_xpm_stream no_table_env (argb32_surface example_image)
     (\<lambda>data len. CAIRO_STATUS_SUCCESS) = Returns (CAIRO_STATUS_NO_MEMORY, [])"
    by blast
  have b: "cairo_image_surface_write_to_xpm_stream generous_env (argb32_surface example_image)
     (\<lambda>data len. CAIRO_STATUS_WRITE_ERROR) =
     Returns (CAIRO_STATUS_WRITE_ERROR, [(Some example_document, 104)])"
    by (simp add: cairo_image_surface_write_to_xpm_stream_def example_mem)
  note t = no_partial_output [of _ _ _ _ _ "\<lambda>data len. CAIRO_STATUS_WRITE_ERROR",
      THEN conjunct2, rule_format, OF b]
  from t have c: "length [(Some example_document, 104 :: nat)] \<le> 1"
    by (rule conjunct1)
  from t have d: "cairo_image_surface_write_to_xpm_mem generous_env (argb32_surface example_image) =
     Returns (CAIRO_STATUS_SUCCESS, Some example_document, 104)"
    by simp
  show ?thesis
    by (intro conjI example_mem_error ne a b c d)
qed

subsection \<open>Images without pixels\<close>

lemma zero_area_keys:
  "get_width img = 0 \<or> get_height img = 0 \<Longrightarrow> pixel_keys img = []"
  by (auto simp add: pixel_keys_def)

lemma zero_area_count:
  "get_width img = 0 \<or> get_height img = 0 \<Longrightarrow> count_colors img = (\<lambda>_. 0, 0)"
  by (simp add: count_colors_foldl zero_area_keys)

lemma color_table_keys_empty: "color_table_keys (\<lambda>_. 0) = []"
  by (simp add: color_table_keys_def)

lemma color_table_empty: "color_table (\<lambda>_. 0) cpp = Returns []"
  by (simp add: color_table_text color_table_keys_empty)

lemma pixel_table_no_symbols:
  "pixel_table img colors 0 = replicate (get_height img) [CHR '','', nl, dq, dq]"
proof -
  have "pixel_line img colors 0 = (\<lambda>y. [CHR '','', nl, dq, dq])"
    by (rule ext) (simp add: pixel_line_def pixel_symbols_def)
  then show ?thesis
    by (simp add: pixel_table_def map_replicate_const)
qed

lemma zero_area_xpm_document:
  assumes "get_width img = 0 \<or> get_height img = 0"
  shows "xpm_document img =
     Returns (xpm_header (get_width img) (get_height img) 0 0
              @ concat (replicate (get_height img) [CHR '','', nl, dq, dq]) @ xpm_footer)"
  by (simp add: xpm_document_text [OF zero_area_count [OF assms]] num_chars_0
      color_table_keys_empty pixel_table_no_symbols)

lemma xpm_header_zero:
  "xpm_header w h 0 0 =
     ''/* XPM */'' @ [nl] @ ''static char *xpm_c0_[] = {'' @ [nl, dq]
     @ dec w @ '' '' @ dec h @ '' 0 0'' @ [dq]"
  by (simp add: xpm_header_def dec.simps dec_digit_def)

lemma zero_area_mem:
  assumes "encoded_image e sfc = Some img"
    and "get_width img = 0 \<or> get_height img = 0"
    and "get_width img < 2 ^ 31" and "4 * get_height img + 256 < 2 ^ 31"
    and "calloc_ok e" and "malloc_ok e (4 * get_height img + 256)"
  shows "cairo_image_surface_write_to_xpm_mem e sfc =
     Returns (CAIRO_STATUS_SUCCESS,
       Some (xpm_header (get_width img) (get_height img) 0 0
              @ concat (replicate (get_height img) [CHR '','', nl, dq, dq]) @ xpm_footer),
       length (xpm_header (get_width img) (get_height img) 0 0
              @ concat (replicate (get_height img) [CHR '','', nl, dq, dq]) @ xpm_footer))"
  using assms
  by (intro write_to_xpm_mem_success [OF assms(1) assms(5) zero_area_count [OF assms(2)]
        zero_area_xpm_document [OF assms(2)]])
    (simp_all add: num_chars_0)

text \<open>
  C8, as the code has it.  For an image without pixels (width 0 or height 0) whose
  width is a C \<^verbatim>\<open>int\<close> and for whose height the estimate does not leave the range of
  \<^verbatim>\<open>int\<close>, and when both allocations succeed, the call returns success with the document:
  a header with 0 colours and 0 characters per pixel, no colour line, and one line \<open>""\<close>
  for each of the \<open>H\<close> rows (none when \<open>H = 0\<close>), then the closing line.
\<close>

theorem zero_area_document:
  assumes "encoded_image e sfc = Some img"
    and "get_width img = 0 \<or> get_height img = 0"
    and "get_width img < 2 ^ 31" and "4 * get_height img + 256 < 2 ^ 31"
    and "calloc_ok e" and "malloc_ok e (4 * get_height img + 256)"
  shows "(let doc = ''/* XPM */'' @ [nl] @ ''static char *xpm_c0_[] = {'' @ [nl, dq]
                    @ dec (get_width img) @ '' '' @ dec (get_height img) @ '' 0 0'' @ [dq]
                    @ concat (replicate (get_height img) [CHR '','', nl, dq, dq])
                    @ [nl] @ ''};'' @ [nl]
          in cairo_image_surface_write_to_xpm_mem e sfc =
               Returns (CAIRO_STATUS_SUCCESS, Some doc, length doc) \<and>
             xpm_document img = Returns doc) \<and>
         count_colors img = (\<lambda>_. 0, 0) \<and>
         num_chars_per_pixel 0 = 0 \<and>
         color_table (\<lambda>_. 0) 0 = Returns [] \<and>
         pixel_table img (\<lambda>_. 0) 0 = replicate (get_height img) [CHR '','', nl, dq, dq]"
proof -
  have e: "xpm_header (get_width img) (get_height img) 0 0
              @ concat (replicate (get_height img) [CHR '','', nl, dq, dq]) @ xpm_footer =
           ''/* XPM */'' @ [nl] @ ''static char *xpm_c0_[] = {'' @ [nl, dq]
           @ dec (get_width img) @ '' '' @ dec (get_height img) @ '' 0 0'' @ [dq]
           @ concat (replicate (get_height img) [CHR '','', nl, dq, dq])
           @ [nl] @ ''};'' @ [nl]"
    by (simp add: xpm_header_zero xpm_footer_def)
  show ?thesis
    using zero_area_mem [OF assms] zero_area_xpm_document [OF assms(2)]
      zero_area_count [OF assms(2)]
    unfolding e Let_def
    by (simp add: num_chars_0 color_table_empty pixel_table_no_symbols)
qed

lemma empty_rows_size: "get_width empty_rows_image = 0" "get_height empty_rows_image = 2"
  by (simp_all add: empty_rows_image_def image_of_rows_def)

lemma replicate_2: "replicate 2 x = [x, x]"
  by (simp add: numeral_2_eq_2)

lemma empty_rows_mem:
  "cairo_image_surface_write_to_xpm_mem generous_env (argb32_surface empty_rows_image) =
     Returns (CAIRO_STATUS_SUCCESS,
       Some (''/* XPM */'' @ [nl] @ ''static char *xpm_c0_[] = {'' @ [nl, dq] @ ''0 2 0 0'' @ [dq]
             @ [CHR '','', nl, dq, dq] @ [CHR '','', nl, dq, dq] @ [nl] @ ''};'' @ [nl]), 58)"
proof -
  have z: "get_width empty_rows_image = 0 \<or> get_height empty_rows_image = 0"
    by (simp add: empty_rows_size)
  have m: "cairo_image_surface_write_to_xpm_mem generous_env (argb32_surface empty_rows_image) =
     Returns (CAIRO_STATUS_SUCCESS,
       Some (xpm_header (get_width empty_rows_image) (get_height empty_rows_image) 0 0
              @ concat (replicate (get_height empty_rows_image) [CHR '','', nl, dq, dq])
              @ xpm_footer),
       length (xpm_header (get_width empty_rows_image) (get_height empty_rows_image) 0 0
              @ concat (replicate (get_height empty_rows_image) [CHR '','', nl, dq, dq])
              @ xpm_footer))"
    by (rule zero_area_mem [OF encoded_argb32 z])
      (simp_all add: empty_rows_size generous_env_def)
  have d: "xpm_header (get_width empty_rows_image) (get_height empty_rows_image) 0 0
              @ concat (replicate (get_height empty_rows_image) [CHR '','', nl, dq, dq])
              @ xpm_footer =
      ''/* XPM */'' @ [nl] @ ''static char *xpm_c0_[] = {'' @ [nl, dq] @ ''0 2 0 0'' @ [dq]
             @ [CHR '','', nl, dq, dq] @ [CHR '','', nl, dq, dq] @ [nl] @ ''};'' @ [nl]"
    by (simp add: xpm_header_zero xpm_footer_def empty_rows_size replicate_2 dec.simps
        dec_digit_def)
  show ?thesis using m unfolding d by simp
qed

theorem zero_area_rows_counterexample:
  "get_width empty_rows_image = 0 \<and>
   count_colors empty_rows_image = (\<lambda>_. 0, 0) \<and>
   num_chars_per_pixel 0 = 0 \<and>
   pixel_table empty_rows_image (\<lambda>_. 0) 0 = [[CHR '','', nl, dq, dq], [CHR '','', nl, dq, dq]] \<and>
   cairo_image_surface_write_to_xpm_mem generous_env (argb32_surface empty_rows_image) =
     Returns (CAIRO_STATUS_SUCCESS,
       Some (''/* XPM */'' @ [nl] @ ''static char *xpm_c0_[] = {'' @ [nl, dq] @ ''0 2 0 0'' @ [dq]
             @ [CHR '','', nl, dq, dq] @ [CHR '','', nl, dq, dq] @ [nl] @ ''};'' @ [nl]), 58)"
proof -
  have z: "get_width empty_rows_image = 0 \<or> get_height empty_rows_image = 0"
    by (simp add: empty_rows_size)
  have t: "pixel_table empty_rows_image (\<lambda>_. 0) 0 =
      [[CHR '','', nl, dq, dq], [CHR '','', nl, dq, dq]]"
    by (simp add: pixel_table_no_symbols empty_rows_size replicate_2)
  show ?thesis
    by (intro conjI empty_rows_size(1) zero_area_count [OF z] num_chars_0 t empty_rows_mem)
qed

theorem zero_area_document_witness:
  "encoded_image generous_env (argb32_surface empty_rows_image) = Some empty_rows_image \<and>
   get_width empty_rows_image = 0 \<and>
   get_width empty_rows_image < 2 ^ 31 \<and> 4 * get_height empty_rows_image + 256 < 2 ^ 31 \<and>
   calloc_ok generous_env \<and> malloc_ok generous_env (4 * get_height empty_rows_image + 256) \<and>
   count_colors empty_rows_image = (\<lambda>_. 0, 0) \<and>
   pixel_table empty_rows_image (\<lambda>_. 0) 0 =
     replicate (get_height empty_rows_image) [CHR '','', nl, dq, dq] \<and>
   cairo_image_surface_write_to_xpm_mem generous_env (argb32_surface empty_rows_image) =
     Returns (CAIRO_STATUS_SUCCESS,
       Some (''/* XPM */'' @ [nl] @ ''static char *xpm_c0_[] = {'' @ [nl, dq] @ ''0 2 0 0'' @ [dq]
             @ [CHR '','', nl, dq, dq] @ [CHR '','', nl, dq, dq] @ [nl] @ ''};'' @ [nl]), 58)"
proof -
  have h: "get_width empty_rows_image = 0 \<or> get_height empty_rows_image = 0"
    "get_width empty_rows_image < 2 ^ 31" "4 * get_height empty_rows_image + 256 < 2 ^ 31"
    "calloc_ok generous_env" "malloc_ok generous_env (4 * get_height empty_rows_image + 256)"
    by (simp_all add: empty_rows_size generous_env_def)
  note t = zero_area_document [OF encoded_argb32 h]
  from t have a: "count_colors empty_rows_image = (\<lambda>_. 0, 0)"
    by (elim conjE)
  from t have b: "pixel_table empty_rows_image (\<lambda>_. 0) 0 =
     replicate (get_height empty_rows_image) [CHR '','', nl, dq, dq]"
    by (elim conjE)
  show ?thesis
    by (intro conjI encoded_argb32 empty_rows_size(1) h(2-5) a b empty_rows_mem)
qed

subsection \<open>Opaque pixels and the width of the symbols\<close>

lemma alpha_bits: "unat (drop_bit 24 (col :: 32 word) AND 0xff) = (unat col div 2 ^ 24) mod 2 ^ 8"
proof -
  have m: "(0xff :: 32 word) = mask 8" by (simp add: mask_eq_exp_minus_1)
  show ?thesis unfolding m
    by (simp add: take_bit_eq_mask [symmetric] unsigned_take_bit_eq take_bit_eq_mod unat_mod
        unat_drop_bit_eq drop_bit_eq_div unat_div)
qed

lemma count_color_opaque:
  assumes "n < 2 ^ 24"
  shows "count_color (0xff000000 + word_of_nat n) = n"
proof -
  let ?p = "0xff000000 + word_of_nat n :: 32 word"
  have "unat (word_of_nat n :: 32 word) = n"
    using assms by (simp add: unat_of_nat)
  then have u: "unat ?p = 0xff000000 + n"
    using assms by (simp add: unat_word_ariths)
  have a: "unat (drop_bit 24 ?p AND 0xff) = 255"
    using assms by (simp add: alpha_bits u)
  have "\<not> drop_bit 24 ?p AND 0xff < TRANS_THRESH"
    by (simp add: word_less_nat_alt a TRANS_THRESH_def)
  moreover have "unat (?p AND 0xffffff) = n"
  proof -
    have "(255 * 16777216 + n) mod 16777216 = n"
      using assms by (simp only: mod_mult_self3) simp
    then show ?thesis by (simp add: rgb_bits u)
  qed
  ultimately show ?thesis
    by (simp only: count_color_alt if_False)
qed









subsection \<open>The buffers of the writer\<close>

text \<open>
  Where the sums and products of \<open>xpm_size\<close> stay within the range of \<^verbatim>\<open>int\<close>, the estimate
  covers the document and its final \<^verbatim>\<open>\0\<close>.
\<close>

lemma size_estimate_sufficient:
  assumes "count_colors sfc = (colors, ncols)" and "xpm_document sfc = Returns doc"
    and "get_width sfc < 2 ^ 31" and "get_height sfc < 2 ^ 31"
    and "(num_chars_per_pixel ncols + 14) * ncols
         + (get_width sfc * num_chars_per_pixel ncols + 4) * get_height sfc + 256 < 2 ^ 31"
  shows "int (length doc) + 1 \<le>
     sint (xpm_size (word_of_nat (get_width sfc)) (word_of_nat (get_height sfc))
             (word_of_nat ncols) (word_of_nat (num_chars_per_pixel ncols)))"
  using document_fits [OF assms(1-4)] unfolding xpm_size_exact [OF assms(5)]
  by linarith

lemma full_palette_size:
  "get_width full_palette_image = 4096" "get_height full_palette_image = 4096"
  by (simp_all add: full_palette_image_def)

lemma full_palette_pixel:
  assumes "x < 4096" "y < 4096"
  shows "count_color (get_argb24_pixel full_palette_image x y) = y * 4096 + x"
proof -
  define n where "n = y * 4096 + x"
  have "n < 2 ^ 24" using assms by (simp add: n_def)
  then have "count_color (0xff000000 + word_of_nat n) = n" by (rule count_color_opaque)
  then show ?thesis by (simp add: full_palette_image_def n_def)
qed

lemma full_palette_keys: "set (pixel_keys full_palette_image) = {0..<2 ^ 24}"
proof
  show "set (pixel_keys full_palette_image) \<subseteq> {0..<2 ^ 24}"
    by (auto simp add: set_pixel_keys full_palette_size full_palette_pixel)
  show "{0..<2 ^ 24} \<subseteq> set (pixel_keys full_palette_image)"
  proof
    fix c :: nat assume "c \<in> {0..<2 ^ 24}"
    then have c: "c < 2 ^ 24" by simp
    have x: "c mod 4096 < 4096" by simp
    have y: "c div 4096 < 4096" using c by simp
    have "c div 4096 * 4096 + c mod 4096 = c" by simp
    then have "c = count_color (get_argb24_pixel full_palette_image (c mod 4096) (c div 4096))"
      by (simp only: full_palette_pixel [OF x y])
    with x y show "c \<in> set (pixel_keys full_palette_image)"
      unfolding set_pixel_keys full_palette_size by blast
  qed
qed

lemma full_palette_ncols:
  assumes "count_colors full_palette_image = (colors, ncols)"
  shows "ncols = 16777216"
  using count_colors_card [OF assms] by (simp add: full_palette_keys)

lemma num_chars_16777216: "num_chars_per_pixel 16777216 = 5"
  by (simp add: num_chars_per_pixel_def bpc_loop.simps)

lemma num_chars_16777215: "num_chars_per_pixel 16777215 = 4"
  by (simp add: num_chars_per_pixel_def bpc_loop.simps)

lemma xpm_size_full_palette: "sint (xpm_size 4096 4096 16777216 5) = 402669824"
  by (simp add: xpm_size_def)

lemma full_palette_document: "xpm_document full_palette_image = Overrun"
proof -
  obtain colors ncols where c: "count_colors full_palette_image = (colors, ncols)"
    by (cases "count_colors full_palette_image")
  have n: "ncols = 16777216" by (rule full_palette_ncols [OF c])
  have "length (color_table_keys colors) = 16777216"
    using color_table_keys_count(3) [OF c] n by simp
  then have "color_table_keys colors \<noteq> []" by auto
  then show ?thesis
    by (simp add: xpm_document_text [OF c] n num_chars_16777216)
qed

text \<open>
  C5.  For the 4096 by 4096 image with all \<open>2 ^ 24\<close> colours the estimate is exact, 402669824
  bytes, but a colour needs 5 symbols and \<^verbatim>\<open>col_encode_base64\<close> stores them and the final
  \<^verbatim>\<open>\0\<close>, 6 bytes, in \<^verbatim>\<open>char cb[5]\<close>: the writing leaves a buffer and nothing bounds what
  is written into \<^verbatim>\<open>xbuf\<close> after that.  With fewer than \<open>2 ^ 24\<close> colours the call never
  leaves a buffer (\<open>write_to_xpm_mem_returns\<close>) and the estimate covers the document
  (\<open>size_estimate_sufficient\<close>).
\<close>

theorem symbol_buffer_overrun:
  "get_width full_palette_image = 4096 \<and> get_height full_palette_image = 4096 \<and>
   snd (count_colors full_palette_image) = 16777216 \<and>
   num_chars_per_pixel 16777216 = 5 \<and>
   num_chars_per_pixel 16777215 = 4 \<and>
   sint (xpm_size 4096 4096 16777216 5) = 402669824 \<and>
   color_line (fst (count_colors full_palette_image)) 5 0 = Overrun \<and>
   xpm_document full_palette_image = Overrun \<and>
   cairo_image_surface_write_to_xpm_mem generous_env (argb32_surface full_palette_image) = Overrun"
proof -
  obtain colors ncols where c: "count_colors full_palette_image = (colors, ncols)"
    by (cases "count_colors full_palette_image")
  have n: "ncols = 16777216" by (rule full_palette_ncols [OF c])
  have s: "snd (count_colors full_palette_image) = 16777216" by (simp add: c n)
  have l: "color_line (fst (count_colors full_palette_image)) 5 0 = Overrun"
    by (simp add: color_line_text)
  have m: "cairo_image_surface_write_to_xpm_mem generous_env (argb32_surface full_palette_image) =
      Overrun"
    by (simp add: cairo_image_surface_write_to_xpm_mem_def encoded_argb32 c n
        num_chars_16777216 full_palette_size xpm_size_full_palette full_palette_document
        generous_env_def)
  show ?thesis
    by (intro conjI full_palette_size s num_chars_16777216 num_chars_16777215
        xpm_size_full_palette l full_palette_document m)
qed

end
